theory Spec2Isabelle
  imports Complex_Main
begin

section \<open>JavaScript strings and the regular expressions of the source\<close>

text \<open>
  A JavaScript string is a sequence of UTF-16 code units. The source only ever compares
  code units with constants (no arithmetic on them), so a code unit is modelled by its
  numeric value and a string by the list of these values; \<open>js\<close> turns an ASCII literal of
  the source into such a list.
\<close>

type_synonym jsstring = "nat list"

definition js :: "string \<Rightarrow> jsstring" where
  "js s = map of_char s"

definition LF :: nat where "LF = 10"
definition CR :: nat where "CR = 13"
definition BOM :: nat where "BOM = 65279"

text \<open>
  The class \<^verbatim>\<open>\s\<close> of a regular expression and the characters removed by
  \<^verbatim>\<open>String.prototype.trim\<close> are the same set: WhiteSpace and LineTerminator of ECMAScript
  (tab, LF, VT, FF, CR, space, U+00A0, U+1680, U+2000..U+200A, U+2028, U+2029, U+202F,
  U+205F, U+3000, U+FEFF).
\<close>

definition is_ws :: "nat \<Rightarrow> bool" where
  "is_ws c \<longleftrightarrow>
     (9 \<le> c \<and> c \<le> 13) \<or> c = 32 \<or> c = 160 \<or> c = 5760 \<or> (8192 \<le> c \<and> c \<le> 8202) \<or>
     c = 8232 \<or> c = 8233 \<or> c = 8239 \<or> c = 8287 \<or> c = 12288 \<or> c = 65279"

text \<open>The class \<^verbatim>\<open>\w\<close>: ASCII letters, digits and the underscore.\<close>

definition is_word :: "nat \<Rightarrow> bool" where
  "is_word c \<longleftrightarrow> (48 \<le> c \<and> c \<le> 57) \<or> (65 \<le> c \<and> c \<le> 90) \<or> c = 95 \<or> (97 \<le> c \<and> c \<le> 122)"

text \<open>
  Matching under the flag \<^verbatim>\<open>i\<close> (without \<^verbatim>\<open>u\<close>) compares canonicalised code units; a
  code unit outside ASCII never canonicalises to an ASCII one, so an ASCII letter of a
  pattern matches exactly its two cases. The patterns below are written in lower case.
\<close>

definition lower :: "nat \<Rightarrow> nat" where
  "lower c = (if 65 \<le> c \<and> c \<le> 90 then c + 32 else c)"

definition ci_prefix :: "jsstring \<Rightarrow> jsstring \<Rightarrow> bool" where
  "ci_prefix kw s \<longleftrightarrow> length kw \<le> length s \<and> map lower (take (length kw) s) = kw"

text \<open>The assertion \<^verbatim>\<open>\b\<close> right after a word character: the input ends or goes on
  with a character outside \<^verbatim>\<open>\w\<close>.\<close>

definition word_end :: "jsstring \<Rightarrow> bool" where
  "word_end s = (case s of [] \<Rightarrow> True | c # _ \<Rightarrow> \<not> is_word c)"

text \<open>A keyword (case-insensitive) followed by \<^verbatim>\<open>\b\<close>, matched at the start of \<open>s\<close>.\<close>

definition kw_b :: "jsstring \<Rightarrow> jsstring \<Rightarrow> bool" where
  "kw_b kw s \<longleftrightarrow> ci_prefix kw s \<and> word_end (drop (length kw) s)"

text \<open>An unanchored pattern is tried at every position of the input, the end included.\<close>

fun somewhere :: "(jsstring \<Rightarrow> bool) \<Rightarrow> jsstring \<Rightarrow> bool" where
  "somewhere p [] = p []"
| "somewhere p (c # cs) = (p (c # cs) \<or> somewhere p cs)"

text \<open>\<^verbatim>\<open>s.replace(/\r\n?/g, "\n")\<close>\<close>

fun replace_crlf :: "jsstring \<Rightarrow> jsstring" where
  "replace_crlf [] = []"
| "replace_crlf [c] = (if c = CR then [LF] else [c])"
| "replace_crlf (c # d # cs) =
     (if c = CR then (if d = LF then LF # replace_crlf cs else LF # replace_crlf (d # cs))
      else c # replace_crlf (d # cs))"

text \<open>\<^verbatim>\<open>s.split("\n")\<close>: the empty string gives one empty line.\<close>

fun split_lines :: "jsstring \<Rightarrow> jsstring list" where
  "split_lines [] = [[]]"
| "split_lines (c # cs) =
     (if c = LF then [] # split_lines cs
      else (case split_lines cs of [] \<Rightarrow> [[c]] | l # ls \<Rightarrow> (c # l) # ls))"

text \<open>\<^verbatim>\<open>lines.join("\n")\<close>\<close>

fun join_lines :: "jsstring list \<Rightarrow> jsstring" where
  "join_lines [] = []"
| "join_lines [l] = l"
| "join_lines (l # m # ls) = l @ LF # join_lines (m # ls)"

text \<open>\<^verbatim>\<open>s.trim()\<close>\<close>

definition trim :: "jsstring \<Rightarrow> jsstring" where
  "trim s = rev (dropWhile is_ws (rev (dropWhile is_ws s)))"

text \<open>\<^verbatim>\<open>s.replace(/^\uFEFF/, "")\<close>\<close>

fun strip_bom :: "jsstring \<Rightarrow> jsstring" where
  "strip_bom [] = []"
| "strip_bom (c # cs) = (if c = BOM then cs else c # cs)"

section \<open>The STL repairer (\<^verbatim>\<open>repairStlText\<close>, the same text in app.js and fixer.js)\<close>

text \<open>The class \<^verbatim>\<open>[^\x09\x0A\x0D\x20-\x7E]\<close> is removed; this is its complement.\<close>

definition stl_keep :: "nat \<Rightarrow> bool" where
  "stl_keep c \<longleftrightarrow> c = 9 \<or> c = 10 \<or> c = 13 \<or> (32 \<le> c \<and> c \<le> 126)"

text \<open>The first four statements of \<^verbatim>\<open>repairStlText\<close>: line endings, commas,
  non-printable characters, then trimming the lines and dropping the empty ones.\<close>

definition stl_clean :: "jsstring \<Rightarrow> jsstring" where
  "stl_clean inputText =
     (let text = replace_crlf inputText;
          text = map (\<lambda>c. if c = 44 then 32 else c) text;
          text = filter stl_keep text
      in join_lines (filter (\<lambda>line. line \<noteq> []) (map trim (split_lines text))))"

text \<open>\<^verbatim>\<open>/^solid\b/i.test(text)\<close> and \<^verbatim>\<open>/endsolid\b/i.test(text)\<close>\<close>

definition test_solid :: "jsstring \<Rightarrow> bool" where
  "test_solid text = kw_b (js ''solid'') text"

definition test_endsolid :: "jsstring \<Rightarrow> bool" where
  "test_endsolid text = somewhere (kw_b (js ''endsolid'')) text"

definition repairStlText :: "jsstring \<Rightarrow> jsstring" where
  "repairStlText inputText =
     (let text = stl_clean inputText;
          text = (if \<not> test_solid text then js ''solid model'' @ LF # text else text);
          text = (if \<not> test_endsolid text then text @ LF # js ''endsolid model'' else text)
      in text)"

text \<open>A line as the repairer leaves it: not empty, trimmed, made of the kept characters,
  without line break or comma.\<close>

definition good_line :: "jsstring \<Rightarrow> bool" where
  "good_line l \<longleftrightarrow> l \<noteq> [] \<and> trim l = l \<and> (\<forall>c\<in>set l. c \<noteq> LF \<and> c \<noteq> CR \<and> c \<noteq> 44 \<and> stl_keep c)"

section \<open>The SCAD repairer (\<^verbatim>\<open>repairScadText\<close>, fixer.js)\<close>

text \<open>The class \<^verbatim>\<open>[A-Za-z_]\<close>.\<close>

definition is_ident_start :: "nat \<Rightarrow> bool" where
  "is_ident_start c \<longleftrightarrow> (65 \<le> c \<and> c \<le> 90) \<or> c = 95 \<or> (97 \<le> c \<and> c \<le> 122)"

text \<open>
  The match of \<^verbatim>\<open>/^(\s*)[A-Za-z_][\w]*\s*=\s*/\<close> at the start of a line: the captured
  leading whitespace and the text left after the match. Each starred class is followed by
  a character outside the class, so the greedy match is the only one.
\<close>

definition assignment_prefix :: "jsstring \<Rightarrow> (jsstring \<times> jsstring) option" where
  "assignment_prefix s =
     (case dropWhile is_ws s of
        [] \<Rightarrow> None
      | c # r \<Rightarrow>
          if \<not> is_ident_start c then None
          else (case dropWhile is_ws (dropWhile is_word r) of
                  [] \<Rightarrow> None
                | e # r' \<Rightarrow> if e = 61 then Some (takeWhile is_ws s, dropWhile is_ws r') else None))"

definition geometry_keywords :: "jsstring list" where
  "geometry_keywords =
     [js ''sphere'', js ''cube'', js ''cylinder'', js ''polyhedron'', js ''text'', js ''import'',
      js ''linear_extrude'', js ''rotate_extrude'']"

text \<open>
  \<^verbatim>\<open>working.match(/^(\s*)([A-Za-z_][\w]*)\s*=\s*(sphere|cube|...|rotate_extrude)\b/i)\<close>
  is not null.
\<close>

definition geometry_assignment :: "jsstring \<Rightarrow> bool" where
  "geometry_assignment working =
     (case assignment_prefix working of
        None \<Rightarrow> False
      | Some (ws, rest) \<Rightarrow> list_ex (\<lambda>kw. kw_b kw rest) geometry_keywords)"

text \<open>
  The callback of \<^verbatim>\<open>lines.map\<close>: the line it returns, and whether it assigned
  \<^verbatim>\<open>changed = true\<close>. The replacement \<^verbatim>\<open>"$1"\<close> keeps the leading whitespace only.
\<close>

definition working_line :: "nat \<Rightarrow> jsstring \<Rightarrow> jsstring" where
  "working_line index line = (if index = 0 then strip_bom line else line)"

definition repair_line :: "nat \<Rightarrow> jsstring \<Rightarrow> jsstring \<times> bool" where
  "repair_line index line =
     (let working = working_line index line in
      if geometry_assignment working
      then (case assignment_prefix working of
              Some (ws, rest) \<Rightarrow> (ws @ rest, True)
            | None \<Rightarrow> (working, True))
      else (working, False))"

text \<open>The map over the lines, threading the variable \<^verbatim>\<open>changed\<close> through the calls.\<close>

fun map_lines :: "nat \<Rightarrow> jsstring list \<Rightarrow> bool \<Rightarrow> jsstring list \<times> bool" where
  "map_lines index [] changed = ([], changed)"
| "map_lines index (line # lines) changed =
     (let (working, hit) = repair_line index line;
          (fixedLines, changed') = map_lines (index + 1) lines (if hit then True else changed)
      in (working # fixedLines, changed'))"

text \<open>The returned object \<^verbatim>\<open>{ text, changed }\<close>; the field \<^verbatim>\<open>text\<close> is called
  \<open>repaired\<close> here.\<close>

record scad_repair =
  repaired :: jsstring
  changed :: bool

definition repairScadText :: "jsstring \<Rightarrow> scad_repair" where
  "repairScadText inputText =
     (let lines = split_lines (replace_crlf inputText);
          (fixedLines, changed) = map_lines 0 lines False
      in \<lparr>repaired = join_lines fixedLines, changed = changed\<rparr>)"

section \<open>Compiling and fixing SCAD (\<^verbatim>\<open>compileScad\<close>, \<^verbatim>\<open>fixScad\<close>, fixer.js)\<close>

text \<open>\<^verbatim>\<open>normalizeScadText\<close>: the four replacements in their order.\<close>

definition scad_control :: "nat \<Rightarrow> bool" where
  "scad_control c \<longleftrightarrow> c \<le> 8 \<or> c = 11 \<or> c = 12 \<or> (14 \<le> c \<and> c \<le> 31)"

definition normalizeScadText :: "jsstring \<Rightarrow> jsstring" where
  "normalizeScadText inputText =
     filter (\<lambda>c. \<not> scad_control c)
       (map (\<lambda>c. if c = 160 then 32 else c) (replace_crlf (strip_bom inputText)))"

text \<open>\<^verbatim>\<open>line.replace(/\s+/g, " ")\<close>\<close>

function collapse_ws :: "jsstring \<Rightarrow> jsstring" where
  "collapse_ws [] = []"
| "collapse_ws (c # cs) =
     (if is_ws c then 32 # collapse_ws (dropWhile is_ws cs) else c # collapse_ws cs)"
  by pat_completeness auto
termination
  by (relation "measure length") (auto simp: length_dropWhile_le less_Suc_eq_le)

text \<open>
  \<^verbatim>\<open>getScadErrorMessage\<close>, on the messages recorded since the log was last cleared:
  the latest line that mentions an error, else the latest that mentions a warning.
\<close>

definition getScadErrorMessage :: "jsstring list \<Rightarrow> jsstring option" where
  "getScadErrorMessage scadErrors =
     (if scadErrors = [] then None
      else
        (let normalized = map (\<lambda>line. trim (collapse_ws line)) scadErrors;
             errorLine = find (somewhere (ci_prefix (js ''error''))) (rev normalized);
             warningLine = find (somewhere (ci_prefix (js ''warning''))) (rev normalized)
         in (case errorLine of Some e \<Rightarrow> Some e | None \<Rightarrow> warningLine)))"

text \<open>\<^verbatim>\<open>a || b\<close> for a message \<open>a\<close> that is a string, null or undefined: the empty
  string is falsy.\<close>

definition or_else :: "jsstring option \<Rightarrow> jsstring \<Rightarrow> jsstring" where
  "or_else a b = (case a of None \<Rightarrow> b | Some m \<Rightarrow> if m = [] then b else m)"

text \<open>
  The OpenSCAD engine is outside the repository. One call of \<^verbatim>\<open>renderToStl\<close> prints
  messages through the callbacks (\<^verbatim>\<open>recordScadError\<close> appends them to the log) and
  then throws an error, whose \<^verbatim>\<open>message\<close> may be missing, or returns the STL text or
  nothing (null or undefined; a result that is neither is outside this model). The engine may answer differently from call to call, so it carries a state of
  its own. Loading the engine (\<^verbatim>\<open>getScadCompiler\<close>, memoised) may fail instead, and then
  every call fails with the same error.
\<close>

datatype render_value = Nullish | Str jsstring

datatype render_result = Threw "jsstring option" | Returned render_value

record render_outcome =
  printed :: "jsstring list"
  result :: render_result

datatype 's engine =
  Unavailable "jsstring option"
| Engine "'s \<Rightarrow> jsstring \<Rightarrow> render_outcome \<times> 's"

text \<open>
  \<^verbatim>\<open>compileScad\<close>. The state is the engine's state with the list of the texts handed to
  \<^verbatim>\<open>renderToStl\<close> so far. The result is the message of the error thrown (\<open>Inl\<close>) or the
  STL text returned (\<open>Inr\<close>).
\<close>

definition compileScad ::
  "'s engine \<Rightarrow> jsstring \<Rightarrow> 's \<times> jsstring list \<Rightarrow> (jsstring option + jsstring) \<times> ('s \<times> jsstring list)" where
  "compileScad eng text st =
     (case eng of
        Unavailable m \<Rightarrow> (Inl m, st)
      | Engine renderToStl \<Rightarrow>
          (let cleaned = normalizeScadText text;
               (out, s') = renderToStl (fst st) cleaned;
               st' = (s', snd st @ [cleaned]);
               diag = getScadErrorMessage (printed out)
           in (case result out of
                 Threw m \<Rightarrow>
                   (Inl (Some (or_else diag (or_else m (js ''SCAD compile failed.'')))), st')
               | Returned Nullish \<Rightarrow>
                   (Inl (Some (or_else diag (js ''SCAD produced no output.''))), st')
               | Returned (Str stlOutput) \<Rightarrow>
                   if trim stlOutput = []
                   then (Inl (Some (or_else diag (js ''SCAD produced empty output.''))), st')
                   else (Inr stlOutput, st'))))"

record fix_result =
  fixed :: jsstring
  fix_changed :: bool
  ok :: bool
  errorMessage :: "jsstring option"

definition fixScad ::
  "'s engine \<Rightarrow> jsstring \<Rightarrow> 's \<times> jsstring list \<Rightarrow> fix_result \<times> ('s \<times> jsstring list)" where
  "fixScad eng text st =
     (case compileScad eng text st of
        (Inr stl, st1) \<Rightarrow>
          (\<lparr>fixed = text, fix_changed = False, ok = True, errorMessage = None\<rparr>, st1)
      | (Inl error, st1) \<Rightarrow>
          (let result = repairScadText text in
           if \<not> changed result
           then (\<lparr>fixed = text, fix_changed = False, ok = False, errorMessage = error\<rparr>, st1)
           else (case compileScad eng (repaired result) st1 of
                   (Inr stl, st2) \<Rightarrow>
                     (\<lparr>fixed = repaired result, fix_changed = True, ok = True,
                       errorMessage = None\<rparr>, st2)
                 | (Inl retryError, st2) \<Rightarrow>
                     (\<lparr>fixed = repaired result, fix_changed = True, ok = False,
                       errorMessage = retryError\<rparr>, st2))))"

section \<open>The SCAD path of the viewer (\<^verbatim>\<open>parseScad\<close>, app.js)\<close>

text \<open>
  \<^verbatim>\<open>parseScad\<close> on the outcome of the engine's \<^verbatim>\<open>renderToStl\<close>: an error of the engine
  propagates; the check \<^verbatim>\<open>!stlText || !/solid\\b/i.test(stlText)\<close> throws the compile
  failure; otherwise the text goes to \<^verbatim>\<open>parseStlData\<close>. In the regular expression
  literal the two backslashes are one escaped backslash: the pattern is the word
  \<^verbatim>\<open>solid\<close>, then a backslash (code 92), then the letter \<^verbatim>\<open>b\<close>.
\<close>

datatype scad_parse = EngineError "jsstring option" | CompileFailure | ParseStlData jsstring

definition parseScad :: "render_result \<Rightarrow> scad_parse" where
  "parseScad r =
     (case r of
        Threw m \<Rightarrow> EngineError m
      | Returned Nullish \<Rightarrow> CompileFailure
      | Returned (Str stlText) \<Rightarrow>
          if stlText = [] \<or> \<not> somewhere (ci_prefix (js ''solid'' @ 92 # js ''b'')) stlText
          then CompileFailure
          else ParseStlData stlText)"

text \<open>An ASCII STL text of one facet, as the engine writes it.\<close>

definition stl_facet :: jsstring where
  "stl_facet =
     js ''solid OpenSCAD_Model'' @ LF #
     js ''  facet normal 0 0 1'' @ LF #
     js ''    outer loop'' @ LF #
     js ''      vertex 0 0 0'' @ LF #
     js ''      vertex 1 0 0'' @ LF #
     js ''      vertex 0 1 0'' @ LF #
     js ''    endloop'' @ LF #
     js ''  endfacet'' @ LF #
     js ''endsolid OpenSCAD_Model'' @ [LF]"

section \<open>The OFF parser (\<^verbatim>\<open>parseOff\<close>, app.js)\<close>

text \<open>
  A JavaScript number: not-a-number, an infinity, or a finite value. The finite values
  are taken as exact rationals; the parser only compares them with counters and with 3
  and truncates them, it does no arithmetic on them.
\<close>

datatype jsnum = NaN | PosInf | NegInf | Fin rat

text \<open>
  \<^verbatim>\<open>line.split(/\s+/)\<close>: the pieces between the runs of whitespace; a line that starts
  or ends with whitespace gives an empty first or last piece.
\<close>

function split_ws :: "jsstring \<Rightarrow> jsstring list" where
  "split_ws s =
     (let rest = dropWhile (\<lambda>c. \<not> is_ws c) s in
      if rest = [] then [takeWhile (\<lambda>c. \<not> is_ws c) s]
      else takeWhile (\<lambda>c. \<not> is_ws c) s # split_ws (dropWhile is_ws rest))"
  by pat_completeness auto
termination
proof (relation "measure length")
  show "wf (measure length)" by simp
next
  fix s :: jsstring and rest
  assume r: "rest = dropWhile (\<lambda>c. \<not> is_ws c) s" and ne: "rest \<noteq> []"
  obtain a r' where ar: "rest = a # r'" using ne by (cases rest) auto
  have "dropWhile (\<lambda>c. \<not> is_ws c) s \<noteq> []" using r ne by simp
  then have "\<not> \<not> is_ws (hd (dropWhile (\<lambda>c. \<not> is_ws c) s))" by (rule hd_dropWhile)
  then have "is_ws a" using r ar by (metis list.sel(1))
  then have "dropWhile is_ws rest = dropWhile is_ws r'" by (simp add: ar)
  then have "length (dropWhile is_ws rest) < length rest"
    using length_dropWhile_le[of is_ws r'] by (simp add: ar less_Suc_eq_le)
  also have "length rest \<le> length s" unfolding r by (rule length_dropWhile_le)
  finally show "(dropWhile is_ws rest, s) \<in> measure length" by simp
qed

declare split_ws.simps [simp del]

datatype off_error =
  OffEmpty | OffInvalidHeader | OffCountMissing | OffCountsInvalid
| OffVertexIncomplete | OffVertexInvalid | OffFaceIncomplete

text \<open>The message of each \<^verbatim>\<open>throw new Error(...)\<close> of \<^verbatim>\<open>parseOff\<close>.\<close>

fun off_message :: "off_error \<Rightarrow> string" where
  "off_message OffEmpty = ''OFF file is empty.''"
| "off_message OffInvalidHeader = ''Invalid OFF header.''"
| "off_message OffCountMissing = ''OFF vertex count missing.''"
| "off_message OffCountsInvalid = ''OFF counts are invalid.''"
| "off_message OffVertexIncomplete = ''OFF vertex data is incomplete.''"
| "off_message OffVertexInvalid = ''OFF vertex entry is invalid.''"
| "off_message OffFaceIncomplete = ''OFF face data is incomplete.''"

text \<open>The lines the parser works on: trimmed, without the empty lines and the lines
  that start with \<^verbatim>\<open>#\<close> (code 35).\<close>

definition off_lines :: "jsstring \<Rightarrow> jsstring list" where
  "off_lines text' =
     filter (\<lambda>line. line \<noteq> [] \<and> take 1 line \<noteq> [35])
       (map trim (split_lines (replace_crlf text')))"

text \<open>\<^verbatim>\<open>/^(?:C?OFF)/i.test(header)\<close> and \<^verbatim>\<open>header.replace(/^(?:C?OFF)\s*/i, "")\<close>\<close>

definition off_header_ok :: "jsstring \<Rightarrow> bool" where
  "off_header_ok header \<longleftrightarrow> ci_prefix (js ''coff'') header \<or> ci_prefix (js ''off'') header"

definition strip_off_header :: "jsstring \<Rightarrow> jsstring" where
  "strip_off_header header =
     (if ci_prefix (js ''coff'') header then dropWhile is_ws (drop 4 header)
      else if ci_prefix (js ''off'') header then dropWhile is_ws (drop 3 header)
      else header)"

text \<open>
  The header and the counts: the rest of the header line or, when that is empty, the
  next line; its first two pieces through \<^verbatim>\<open>Number\<close>, both finite. The result is the
  two counts and the lines still to read. \<^verbatim>\<open>Number\<close> is the conversion of the language
  and is a parameter here.
\<close>

definition off_counts ::
  "(jsstring \<Rightarrow> jsnum) \<Rightarrow> jsstring list \<Rightarrow> off_error + (rat \<times> rat \<times> jsstring list)" where
  "off_counts Number lines =
     (case lines of
        [] \<Rightarrow> Inl OffEmpty
      | header # lines \<Rightarrow>
          if \<not> off_header_ok header then Inl OffInvalidHeader
          else
            (let inline = trim (strip_off_header header);
                 (countsLine, lines) =
                   (if inline \<noteq> [] then (Some inline, lines)
                    else (case lines of [] \<Rightarrow> (None, []) | l # ls \<Rightarrow> (Some l, ls)))
             in (case countsLine of
                   None \<Rightarrow> Inl OffCountMissing
                 | Some countsLine \<Rightarrow>
                     (case map Number (take 2 (split_ws countsLine)) of
                        [Fin vertexCount, Fin faceCount] \<Rightarrow> Inr (vertexCount, faceCount, lines)
                      | _ \<Rightarrow> Inl OffCountsInvalid))))"

text \<open>
  The vertex loop \<^verbatim>\<open>for (let i = 0; i < vertexCount; i += 1)\<close>: each round takes a
  line; the result is the coordinates pushed and the lines left.
\<close>

fun read_vertices ::
  "(jsstring \<Rightarrow> jsnum) \<Rightarrow> rat \<Rightarrow> nat \<Rightarrow> jsstring list \<Rightarrow> jsnum list \<Rightarrow>
     off_error + (jsnum list \<times> jsstring list)" where
  "read_vertices Number vertexCount i [] vertices =
     (if of_nat i < vertexCount then Inl OffVertexIncomplete else Inr (vertices, []))"
| "read_vertices Number vertexCount i (line # lines) vertices =
     (if of_nat i < vertexCount
      then (let parts = map Number (split_ws line) in
            if length parts < 3 then Inl OffVertexInvalid
            else read_vertices Number vertexCount (i + 1) lines
                   (vertices @ [parts ! 0, parts ! 1, parts ! 2]))
      else Inr (vertices, line # lines))"

text \<open>The inner loop over \<^verbatim>\<open>faceIndices\<close>: a fan of triangles from the first index.\<close>

definition fan_triangles :: "'a list \<Rightarrow> 'a list" where
  "fan_triangles faceIndices =
     concat (map (\<lambda>j. [faceIndices ! 0, faceIndices ! j, faceIndices ! (j + 1)])
                 [1..<length faceIndices - 1])"

text \<open>
  The body of the face loop: what one face line adds to \<^verbatim>\<open>indices\<close>. The two
  \<^verbatim>\<open>continue\<close> statements add nothing. \<^verbatim>\<open>parts.slice(1, 1 + faceVertices)\<close> truncates
  its bound and stops at the end of the array.
\<close>

definition face_triangles :: "(jsstring \<Rightarrow> jsnum) \<Rightarrow> jsstring \<Rightarrow> jsnum list" where
  "face_triangles Number line =
     (let parts = map Number (split_ws line) in
      if length parts < 4 then []
      else (case parts ! 0 of
              Fin faceVertices \<Rightarrow>
                if faceVertices < 3 then []
                else fan_triangles (take (nat \<lfloor>faceVertices\<rfloor>) (tl parts))
            | _ \<Rightarrow> []))"

fun read_faces ::
  "(jsstring \<Rightarrow> jsnum) \<Rightarrow> rat \<Rightarrow> nat \<Rightarrow> jsstring list \<Rightarrow> jsnum list \<Rightarrow> off_error + jsnum list" where
  "read_faces Number faceCount i [] indices =
     (if of_nat i < faceCount then Inl OffFaceIncomplete else Inr indices)"
| "read_faces Number faceCount i (line # lines) indices =
     (if of_nat i < faceCount
      then read_faces Number faceCount (i + 1) lines (indices @ face_triangles Number line)
      else Inr indices)"

text \<open>The geometry built at the end: the position array (three numbers a vertex) and
  the index array (three indices a triangle).\<close>

record off_geometry =
  position_array :: "jsnum list"
  index_array :: "jsnum list"

definition parseOff :: "(jsstring \<Rightarrow> jsnum) \<Rightarrow> jsstring \<Rightarrow> off_error + off_geometry" where
  "parseOff Number text' =
     (case off_counts Number (off_lines text') of
        Inl e \<Rightarrow> Inl e
      | Inr (vertexCount, faceCount, lines) \<Rightarrow>
          (case read_vertices Number vertexCount 0 lines [] of
             Inl e \<Rightarrow> Inl e
           | Inr (vertices, lines) \<Rightarrow>
               (case read_faces Number faceCount 0 lines [] of
                  Inl e \<Rightarrow> Inl e
                | Inr indices \<Rightarrow> Inr \<lparr>position_array = vertices, index_array = indices\<rparr>)))"

text \<open>The fixture of the specification, and a conversion that agrees with \<^verbatim>\<open>Number\<close>
  on the strings of decimal digits (it is used to instantiate the parameter).\<close>

definition off_fixture :: jsstring where
  "off_fixture =
     js ''OFF'' @ LF # js ''4 2 0'' @ LF # js ''0 0 0'' @ LF # js ''1 0 0'' @ LF #
     js ''1 1 0'' @ LF # js ''0 1 0'' @ LF # js ''3 0 1 2'' @ LF # js ''3 0 2 3''"

definition digits_number :: "jsstring \<Rightarrow> jsnum" where
  "digits_number s =
     (if s \<noteq> [] \<and> list_all (\<lambda>c. 48 \<le> c \<and> c \<le> 57) s
      then Fin (of_nat (foldl (\<lambda>n c. 10 * n + (c - 48)) 0 s))
      else NaN)"

section \<open>Model statistics and validation (\<^verbatim>\<open>computeObjectStats\<close>, \<^verbatim>\<open>validateObject\<close>, app.js)\<close>

text \<open>
  The order, the minimum, the maximum and the difference of JavaScript numbers, with
  their treatment of not-a-number and of the infinities; finite values are exact here.
\<close>

fun num_less :: "jsnum \<Rightarrow> jsnum \<Rightarrow> bool" where
  "num_less NaN b = False"
| "num_less a NaN = False"
| "num_less a NegInf = False"
| "num_less NegInf b = True"
| "num_less PosInf b = False"
| "num_less (Fin a) PosInf = True"
| "num_less (Fin a) (Fin b) = (a < b)"

definition num_min :: "jsnum \<Rightarrow> jsnum \<Rightarrow> jsnum" where
  "num_min a b = (if a = NaN \<or> b = NaN then NaN else if num_less b a then b else a)"

definition num_max :: "jsnum \<Rightarrow> jsnum \<Rightarrow> jsnum" where
  "num_max a b = (if a = NaN \<or> b = NaN then NaN else if num_less a b then b else a)"

fun num_sub :: "jsnum \<Rightarrow> jsnum \<Rightarrow> jsnum" where
  "num_sub (Fin a) (Fin b) = Fin (a - b)"
| "num_sub NaN b = NaN"
| "num_sub a NaN = NaN"
| "num_sub PosInf PosInf = NaN"
| "num_sub NegInf NegInf = NaN"
| "num_sub PosInf b = PosInf"
| "num_sub NegInf b = NegInf"
| "num_sub (Fin a) PosInf = NegInf"
| "num_sub (Fin a) NegInf = PosInf"

fun is_finite :: "jsnum \<Rightarrow> bool" where
  "is_finite (Fin a) = True"
| "is_finite a = False"

text \<open>The box of the rendering library: \<^verbatim>\<open>makeEmpty\<close>, \<^verbatim>\<open>union\<close>, \<^verbatim>\<open>isEmpty\<close>,
  \<^verbatim>\<open>getSize\<close>.\<close>

type_synonym vec3 = "jsnum \<times> jsnum \<times> jsnum"

record box3 =
  bmin :: vec3
  bmax :: vec3

definition makeEmpty :: box3 where
  "makeEmpty = \<lparr>bmin = (PosInf, PosInf, PosInf), bmax = (NegInf, NegInf, NegInf)\<rparr>"

definition vec_map2 :: "(jsnum \<Rightarrow> jsnum \<Rightarrow> jsnum) \<Rightarrow> vec3 \<Rightarrow> vec3 \<Rightarrow> vec3" where
  "vec_map2 f u v = (case (u, v) of ((a, b, c), (x, y, z)) \<Rightarrow> (f a x, f b y, f c z))"

definition box_union :: "box3 \<Rightarrow> box3 \<Rightarrow> box3" where
  "box_union this box =
     \<lparr>bmin = vec_map2 num_min (bmin this) (bmin box), bmax = vec_map2 num_max (bmax this) (bmax box)\<rparr>"

definition isEmpty :: "box3 \<Rightarrow> bool" where
  "isEmpty this =
     (case (bmin this, bmax this) of
        ((a, b, c), (x, y, z)) \<Rightarrow> num_less x a \<or> num_less y b \<or> num_less z c)"

definition getSize :: "box3 \<Rightarrow> vec3" where
  "getSize this =
     (if isEmpty this then (Fin 0, Fin 0, Fin 0) else vec_map2 num_sub (bmax this) (bmin this))"

text \<open>
  What \<^verbatim>\<open>traverse\<close> visits: the object and its descendants, each a mesh or not, with a
  geometry or not. Of a geometry the function reads the count of the attribute
  \<^verbatim>\<open>position\<close>, when there is one, and the bounding box, moved into world space, when
  one can be computed.
\<close>

record mesh_geometry =
  position_count :: "nat option"
  world_box :: "box3 option"

record scene_child =
  isMesh :: bool
  geometry :: "mesh_geometry option"

text \<open>The callback of \<^verbatim>\<open>traverse\<close>, on the running box and triangle count.\<close>

definition visit_child :: "box3 \<times> rat \<Rightarrow> scene_child \<Rightarrow> box3 \<times> rat" where
  "visit_child acc child =
     (case acc of (bounds, triangles) \<Rightarrow>
        (case geometry child of
           None \<Rightarrow> (bounds, triangles)
         | Some g \<Rightarrow>
             if \<not> isMesh child then (bounds, triangles)
             else
               (let triangles = (case position_count g of
                                   Some count \<Rightarrow> triangles + of_nat count / 3
                                 | None \<Rightarrow> triangles);
                    bounds = (case world_box g of
                                Some childBox \<Rightarrow> box_union bounds childBox
                              | None \<Rightarrow> bounds)
                in (bounds, triangles))))"

text \<open>The returned object \<^verbatim>\<open>{ bounds, size, triangles }\<close>; the field \<^verbatim>\<open>size\<close> is
  called \<open>size_vec\<close> here.\<close>

record object_stats =
  bounds :: box3
  size_vec :: vec3
  triangles :: rat

definition computeObjectStats :: "scene_child list \<Rightarrow> object_stats" where
  "computeObjectStats object =
     (case foldl visit_child (makeEmpty, 0) object of
        (b, t) \<Rightarrow> \<lparr>bounds = b, size_vec = getSize b, triangles = t\<rparr>)"

definition validateObject :: "scene_child list \<Rightarrow> string option" where
  "validateObject object =
     (let stats = computeObjectStats object in
      if triangles stats \<le> 0 then Some ''No triangles found. Check that the data is valid.''
      else if isEmpty (bounds stats)
      then Some ''Could not compute geometry bounds. Check the data.''
      else (case size_vec stats of (x, y, z) \<Rightarrow>
              if \<not> (is_finite x \<and> is_finite y \<and> is_finite z)
              then Some ''Invalid geometry values detected. Check the data.''
              else None))"

text \<open>
  The mesh \<^verbatim>\<open>parseOff\<close> returns: its position attribute holds the coordinates three
  by three (\<^verbatim>\<open>new THREE.Float32BufferAttribute(vertices, 3)\<close>), so its count is the
  number of vertices.
\<close>

definition off_mesh :: "off_geometry \<Rightarrow> box3 option \<Rightarrow> scene_child" where
  "off_mesh g box =
     \<lparr>isMesh = True,
      geometry = Some \<lparr>position_count = Some (length (position_array g) div 3), world_box = box\<rparr>\<rparr>"

section \<open>Loading and the repair prompt (\<^verbatim>\<open>loadInput\<close>, \<^verbatim>\<open>applyRepair\<close>, app.js)\<close>

datatype format = Stl | Obj | Ply | Off | Gltf | Glb | ThreeMf | Scad

text \<open>The data of a load: a string or an array buffer.\<close>

datatype payload = TextData jsstring | BinaryData "nat list"

text \<open>\<^verbatim>\<open>FORMAT_LABELS\<close>\<close>

fun format_label :: "format \<Rightarrow> jsstring" where
  "format_label Stl = js ''STL''"
| "format_label Obj = js ''OBJ''"
| "format_label Ply = js ''PLY''"
| "format_label Off = js ''OFF''"
| "format_label Gltf = js ''glTF''"
| "format_label Glb = js ''GLB''"
| "format_label ThreeMf = js ''3MF''"
| "format_label Scad = js ''SCAD''"

text \<open>
  The parsers behind \<^verbatim>\<open>parseByFormat\<close> are a parameter: a call throws an error (whose
  message may be missing), returns something that is not a scene object, or returns an
  object, given by what \<^verbatim>\<open>traverse\<close> visits.
\<close>

datatype parsed = ParseThrew "jsstring option" | NotObject3D | Object3D "scene_child list"

text \<open>
  The part of the page state the repair flow reads and writes: whether the modal
  element exists and is hidden, the module variable \<^verbatim>\<open>pendingRepairText\<close>, the status
  line with its error flag, the text area, whether a model is shown, and the calls of
  \<^verbatim>\<open>loadInput\<close> made so far (format, data, \<^verbatim>\<open>allowRepair\<close>).
\<close>

record page =
  repairModal :: bool
  modal_hidden :: bool
  pendingRepairText :: "jsstring option"
  status :: "jsstring \<times> bool"
  stlText_value :: jsstring
  currentObject :: bool
  load_calls :: "(format \<times> payload \<times> bool) list"

definition setStatus :: "jsstring \<Rightarrow> bool \<Rightarrow> page \<Rightarrow> page" where
  "setStatus message isError p = p\<lparr>status := (message, isError)\<rparr>"

definition clearModel :: "jsstring \<Rightarrow> bool \<Rightarrow> page \<Rightarrow> page" where
  "clearModel message isError p =
     (let p = p\<lparr>currentObject := False\<rparr> in
      if message \<noteq> [] then setStatus message isError p else p)"

text \<open>\<^verbatim>\<open>showRepairPrompt(message, originalText)\<close>; the second argument is the data of the
  load, a string or not.\<close>

definition showRepairPrompt :: "payload \<Rightarrow> page \<Rightarrow> page" where
  "showRepairPrompt originalText p =
     (case originalText of
        BinaryData b \<Rightarrow> p
      | TextData t \<Rightarrow>
          if \<not> repairModal p then p
          else p\<lparr>pendingRepairText := Some t, modal_hidden := False\<rparr>)"

definition hideRepairPrompt :: "page \<Rightarrow> page" where
  "hideRepairPrompt p =
     (if \<not> repairModal p then p
      else p\<lparr>modal_hidden := True, pendingRepairText := None\<rparr>)"

definition is_text :: "payload \<Rightarrow> bool" where
  "is_text d = (case d of TextData t \<Rightarrow> True | BinaryData b \<Rightarrow> False)"

definition loadInput ::
  "(format \<Rightarrow> payload \<Rightarrow> parsed) \<Rightarrow> format \<Rightarrow> payload \<Rightarrow> bool \<Rightarrow> page \<Rightarrow> page" where
  "loadInput parseByFormat fmt dat allowRepair p =
     (let label = format_label fmt;
          p = setStatus (js ''Loading '' @ label @ js ''...'') False p;
          p = p\<lparr>load_calls := load_calls p @ [(fmt, dat, allowRepair)]\<rparr>
      in (case parseByFormat fmt dat of
            ParseThrew m \<Rightarrow>
              (let message = or_else m (js ''Could not parse '' @ label @ js ''.'');
                   p = clearModel message True p
               in if allowRepair \<and> is_text dat then showRepairPrompt dat p else p)
          | NotObject3D \<Rightarrow>
              clearModel (label @ js '' did not contain any renderable geometry.'') True p
          | Object3D object \<Rightarrow>
              (case validateObject object of
                 Some validationMessage \<Rightarrow>
                   (let p = clearModel (js validationMessage) True p
                    in if allowRepair \<and> is_text dat then showRepairPrompt dat p else p)
               | None \<Rightarrow>
                   setStatus (label @ js '' loaded. Ready to download.'') False
                     (p\<lparr>currentObject := True\<rparr>))))"

text \<open>
  \<^verbatim>\<open>applyRepair\<close>, the handler of the confirm button. \<^verbatim>\<open>hideRepairPrompt()\<close> runs
  between the repair and the comparison, and the comparison reads the variable
  \<^verbatim>\<open>pendingRepairText\<close> again.
\<close>

definition applyRepair :: "(format \<Rightarrow> payload \<Rightarrow> parsed) \<Rightarrow> page \<Rightarrow> page" where
  "applyRepair parseByFormat p =
     (case pendingRepairText p of
        None \<Rightarrow> hideRepairPrompt p
      | Some pending \<Rightarrow>
          if pending = [] then hideRepairPrompt p
          else
            (let repaired = repairStlText pending;
                 p = hideRepairPrompt p
             in if repaired = [] \<or> pendingRepairText p = Some repaired
                then setStatus (js ''No fixable issues found in the STL text.'') True p
                else loadInput parseByFormat Stl (TextData repaired) False
                       (p\<lparr>stlText_value := repaired\<rparr>)))"

text \<open>
  A pasted text that is well formed for the repairer, with a facet that does not close,
  and an STL parser that finds no triangle in it.
\<close>

definition stl_no_triangle :: jsstring where
  "stl_no_triangle = js ''solid m'' @ LF # js ''facet normal 0 0 1'' @ LF # js ''endsolid m''"

definition empty_stl_parser :: "format \<Rightarrow> payload \<Rightarrow> parsed" where
  "empty_stl_parser fmt dat =
     Object3D [\<lparr>isMesh = True, geometry = Some \<lparr>position_count = Some 0, world_box = None\<rparr>\<rparr>]"

definition fresh_page :: page where
  "fresh_page =
     \<lparr>repairModal = True, modal_hidden = True, pendingRepairText = None, status = ([], False),
      stlText_value = stl_no_triangle, currentObject = False, load_calls = []\<rparr>"

section \<open>Format detection (\<^verbatim>\<open>detectFormatFromText\<close>, \<^verbatim>\<open>detectFormatFromFile\<close>, app.js)\<close>

text \<open>
  An unanchored pattern that begins with an assertion on the character before it: the
  pattern is tried at the positions where the assertion holds. \<open>opens c\<close> says that a
  position right after the character \<open>c\<close> qualifies; the start of the input does.
\<close>

fun somewhere_after :: "(nat \<Rightarrow> bool) \<Rightarrow> (jsstring \<Rightarrow> bool) \<Rightarrow> bool \<Rightarrow> jsstring \<Rightarrow> bool" where
  "somewhere_after opens p here [] = (here \<and> p [])"
| "somewhere_after opens p here (c # cs) =
     ((here \<and> p (c # cs)) \<or> somewhere_after opens p (opens c) cs)"

text \<open>The line terminators: what \<^verbatim>\<open>.\<close> does not match and what \<^verbatim>\<open>^\<close> follows under
  the flag \<^verbatim>\<open>m\<close>.\<close>

definition is_line_term :: "nat \<Rightarrow> bool" where
  "is_line_term c \<longleftrightarrow> c = 10 \<or> c = 13 \<or> c = 8232 \<or> c = 8233"

text \<open>\<^verbatim>\<open>/^\s*\{/\<close>\<close>

definition starts_object :: "jsstring \<Rightarrow> bool" where
  "starts_object s = (case dropWhile is_ws s of [] \<Rightarrow> False | c # r \<Rightarrow> c = 123)"

text \<open>\<^verbatim>\<open>/"asset"\s*:\s*\{/\<close> at the start of \<open>s\<close>; the quotation mark has code 34.\<close>

definition asset_key :: "jsstring \<Rightarrow> bool" where
  "asset_key s \<longleftrightarrow>
     take 7 s = 34 # js ''asset'' @ [34] \<and>
     (case dropWhile is_ws (drop 7 s) of
        [] \<Rightarrow> False
      | c # r \<Rightarrow> c = 58 \<and> (case dropWhile is_ws r of [] \<Rightarrow> False | d # r' \<Rightarrow> d = 123))"

text \<open>\<^verbatim>\<open>/facet\s+normal/i\<close> at the start of \<open>s\<close>\<close>

definition facet_normal :: "jsstring \<Rightarrow> bool" where
  "facet_normal s \<longleftrightarrow>
     ci_prefix (js ''facet'') s \<and>
     (case drop 5 s of
        [] \<Rightarrow> False
      | c # r \<Rightarrow> is_ws c \<and> ci_prefix (js ''normal'') (dropWhile is_ws r))"

text \<open>
  \<^verbatim>\<open>/^(?:#.*\n)?\s*(o|g|v|vn|vt|f)\s+/im\<close> at a line start: an OBJ keyword after
  optional whitespace and before whitespace, possibly after one comment line.
\<close>

definition obj_keywords :: "jsstring list" where
  "obj_keywords = [js ''o'', js ''g'', js ''v'', js ''vn'', js ''vt'', js ''f'']"

definition obj_statement :: "jsstring \<Rightarrow> bool" where
  "obj_statement s =
     list_ex (\<lambda>kw. ci_prefix kw (dropWhile is_ws s) \<and>
                (case drop (length kw) (dropWhile is_ws s) of [] \<Rightarrow> False | c # r \<Rightarrow> is_ws c))
       obj_keywords"

definition obj_line :: "jsstring \<Rightarrow> bool" where
  "obj_line s \<longleftrightarrow>
     obj_statement s \<or>
     (case s of
        [] \<Rightarrow> False
      | c # r \<Rightarrow>
          c = 35 \<and>
          (case dropWhile (\<lambda>c. \<not> is_line_term c) r of
             [] \<Rightarrow> False
           | d # r' \<Rightarrow> d = 10 \<and> obj_statement r'))"

text \<open>\<^verbatim>\<open>/\b(module|difference|...|cylinder)\b/i\<close> at a position that follows a
  character outside \<^verbatim>\<open>\w\<close>.\<close>

definition scad_keywords :: "jsstring list" where
  "scad_keywords =
     [js ''module'', js ''difference'', js ''union'', js ''intersection'', js ''translate'',
      js ''rotate'', js ''scale'', js ''cube'', js ''sphere'', js ''cylinder'']"

definition scad_keyword :: "jsstring \<Rightarrow> bool" where
  "scad_keyword s = list_ex (\<lambda>kw. kw_b kw s) scad_keywords"

text \<open>The six tests of \<^verbatim>\<open>detectFormatFromText\<close>, on the trimmed text.\<close>

definition looks_gltf :: "jsstring \<Rightarrow> bool" where
  "looks_gltf trimmed \<longleftrightarrow> starts_object trimmed \<and> somewhere asset_key trimmed"

definition looks_stl :: "jsstring \<Rightarrow> bool" where
  "looks_stl trimmed \<longleftrightarrow> kw_b (js ''solid'') trimmed \<and> somewhere facet_normal trimmed"

definition looks_ply :: "jsstring \<Rightarrow> bool" where
  "looks_ply trimmed \<longleftrightarrow> kw_b (js ''ply'') trimmed"

definition looks_off :: "jsstring \<Rightarrow> bool" where
  "looks_off trimmed \<longleftrightarrow> kw_b (js ''coff'') trimmed \<or> kw_b (js ''off'') trimmed"

definition looks_obj :: "jsstring \<Rightarrow> bool" where
  "looks_obj trimmed \<longleftrightarrow> somewhere_after is_line_term obj_line True trimmed"

definition looks_scad :: "jsstring \<Rightarrow> bool" where
  "looks_scad trimmed \<longleftrightarrow> somewhere_after (\<lambda>c. \<not> is_word c) scad_keyword True trimmed"

definition detectFormatFromText :: "jsstring \<Rightarrow> format option" where
  "detectFormatFromText text' =
     (let trimmed = trim text' in
      if trimmed = [] then None
      else if looks_gltf trimmed then Some Gltf
      else if looks_stl trimmed then Some Stl
      else if looks_ply trimmed then Some Ply
      else if looks_off trimmed then Some Off
      else if looks_obj trimmed then Some Obj
      else if looks_scad trimmed then Some Scad
      else None)"

text \<open>
  \<^verbatim>\<open>name.split(".").pop().toLowerCase()\<close> looked up in the list \<^verbatim>\<open>known\<close>: the part
  of the name after its last dot, or the whole name. Only the ASCII letters are lowered
  here: no other character lowers to a letter that occurs in the known extensions.
\<close>

definition extension :: "jsstring \<Rightarrow> jsstring" where
  "extension name = map lower (rev (takeWhile (\<lambda>c. c \<noteq> 46) (rev name)))"

definition known_extension :: "jsstring \<Rightarrow> format option" where
  "known_extension name =
     map_of [(js ''stl'', Stl), (js ''obj'', Obj), (js ''ply'', Ply), (js ''off'', Off),
             (js ''gltf'', Gltf), (js ''glb'', Glb), (js ''3mf'', ThreeMf), (js ''scad'', Scad)]
       (extension name)"

text \<open>\<^verbatim>\<open>headerText.includes("glTF")\<close>\<close>

definition includes_glTF :: "jsstring \<Rightarrow> bool" where
  "includes_glTF headerText = somewhere (\<lambda>s. take 4 s = js ''glTF'') headerText"

definition detectFormatFromFile :: "jsstring \<Rightarrow> jsstring \<Rightarrow> format option" where
  "detectFormatFromFile name headerText =
     (case known_extension name of
        Some fmt \<Rightarrow> Some fmt
      | None \<Rightarrow> if includes_glTF headerText then Some Glb else detectFormatFromText headerText)"

text \<open>
  The format \<^verbatim>\<open>handleFile\<close> loads a file as: the header is the decoding of the first
  512 bytes (\<^verbatim>\<open>textDecoder.decode(buffer.slice(0, 512))\<close>; the decoder is a parameter).
\<close>

definition handleFile_format :: "(nat list \<Rightarrow> jsstring) \<Rightarrow> jsstring \<Rightarrow> nat list \<Rightarrow> format option" where
  "handleFile_format decode name buffer = detectFormatFromFile name (decode (take 512 buffer))"

text \<open>The format \<^verbatim>\<open>handleText\<close> loads the pasted text as: the whole text, without a
  leading byte-order mark and trimmed, goes to \<^verbatim>\<open>detectFormatFromText\<close>.\<close>

definition handleText_format :: "jsstring \<Rightarrow> format option" where
  "handleText_format value =
     (let text' = trim (strip_bom value) in
      if text' = [] then None else detectFormatFromText text')"

text \<open>A pasted text of 520 letters and then a SCAD statement.\<close>

definition late_scad :: jsstring where
  "late_scad = replicate 520 120 @ js '' cube(1);''"

section \<open>Properties of the STL repairer\<close>

lemmas stl_eval = repairStlText_def stl_clean_def js_def test_solid_def test_endsolid_def
  kw_b_def ci_prefix_def word_end_def trim_def is_ws_def stl_keep_def LF_def CR_def
  lower_def is_word_def

lemma split_lines_nonempty: "split_lines t \<noteq> []"
  by (induction t) (auto split: list.splits)

lemma split_lines_chars: "l \<in> set (split_lines t) \<Longrightarrow> set l \<subseteq> set t - {LF}"
proof (induction t arbitrary: l)
  case Nil then show ?case by simp
next
  case (Cons c cs)
  show ?case
  proof (cases "c = LF")
    case True
    with Cons show ?thesis by auto
  next
    case False
    obtain m ms where s: "split_lines cs = m # ms"
      using split_lines_nonempty[of cs] by (cases "split_lines cs") auto
    from Cons.prems False s have "l = c # m \<or> l \<in> set ms" by auto
    then show ?thesis
    proof
      assume "l = c # m"
      moreover have "set m \<subseteq> set cs - {LF}" using Cons.IH[of m] s by simp
      ultimately show ?thesis using False by auto
    next
      assume "l \<in> set ms"
      then have "set l \<subseteq> set cs - {LF}" using Cons.IH[of l] s by simp
      then show ?thesis by auto
    qed
  qed
qed

lemma split_lines_single: "LF \<notin> set l \<Longrightarrow> split_lines l = [l]"
  by (induction l) auto

lemma split_lines_append: "LF \<notin> set l \<Longrightarrow> split_lines (l @ LF # t) = l # split_lines t"
  by (induction l) auto

lemma split_join_lines:
  "ls \<noteq> [] \<Longrightarrow> \<forall>l\<in>set ls. LF \<notin> set l \<Longrightarrow> split_lines (join_lines ls) = ls"
  by (induction ls rule: join_lines.induct) (auto simp: split_lines_single split_lines_append)

lemma join_lines_Cons: "ls \<noteq> [] \<Longrightarrow> join_lines (l # ls) = l @ LF # join_lines ls"
  by (cases ls) auto

lemma join_lines_snoc: "ls \<noteq> [] \<Longrightarrow> join_lines (ls @ [l]) = join_lines ls @ LF # l"
  by (induction ls rule: join_lines.induct) auto

lemma join_lines_Nil_iff: "\<forall>l\<in>set ls. l \<noteq> [] \<Longrightarrow> join_lines ls = [] \<longleftrightarrow> ls = []"
  by (induction ls rule: join_lines.induct) auto

lemma set_join_lines: "set (join_lines ls) \<subseteq> \<Union>(set ` set ls) \<union> {LF}"
  by (induction ls rule: join_lines.induct) auto

lemma replace_crlf_no_CR: "CR \<notin> set (replace_crlf t)"
  by (induction t rule: replace_crlf.induct) (auto simp: CR_def LF_def)

lemma replace_crlf_id: "CR \<notin> set t \<Longrightarrow> replace_crlf t = t"
  by (induction t rule: replace_crlf.induct) auto

lemma set_trim: "set (trim l) \<subseteq> set l"
  by (auto simp: trim_def dest!: set_dropWhileD)

lemma trim_idem: "trim (trim l) = trim l"
proof -
  define a where "a = dropWhile is_ws l"
  define b where "b = dropWhile is_ws (rev a)"
  have 1: "dropWhile is_ws (rev b) = rev b"
  proof (cases "b = []")
    case True then show ?thesis by (simp only: rev.simps dropWhile.simps)
  next
    case False
    then have ne: "a \<noteq> []" by (auto simp: b_def)
    have nb: "rev b \<noteq> []" using False by simp
    have "rev a = takeWhile is_ws (rev a) @ b"
      by (simp add: b_def)
    then have "a = rev b @ rev (takeWhile is_ws (rev a))" by (metis rev_append rev_rev_ident)
    then have "hd (rev b) = hd a" using nb by (metis hd_append2)
    moreover have "\<not> is_ws (hd a)" using ne unfolding a_def by (metis hd_dropWhile)
    ultimately have "\<not> is_ws (hd (rev b))" by simp
    then show ?thesis using nb by (cases "rev b") auto
  qed
  have 2: "dropWhile is_ws (rev (rev b)) = b"
    by (simp add: b_def dropWhile_idem)
  show ?thesis unfolding trim_def a_def[symmetric] b_def[symmetric] using 1 2 by simp
qed

lemma stl_clean_good:
  "\<exists>ls. stl_clean x = join_lines ls \<and> (\<forall>l\<in>set ls. good_line l)"
proof -
  define t where "t = filter stl_keep (map (\<lambda>c. if c = 44 then 32 else c) (replace_crlf x))"
  define ls where "ls = filter (\<lambda>line. line \<noteq> []) (map trim (split_lines t))"
  have t: "\<forall>c\<in>set t. c \<noteq> CR \<and> c \<noteq> 44 \<and> stl_keep c"
    using replace_crlf_no_CR[of x] by (auto simp: t_def CR_def)
  have "good_line l" if "l \<in> set ls" for l
  proof -
    from that obtain m where m: "m \<in> set (split_lines t)" "l = trim m" "l \<noteq> []"
      by (auto simp: ls_def)
    have "set l \<subseteq> set t - {LF}" using split_lines_chars[OF m(1)] set_trim[of m] m(2) by auto
    then show ?thesis using t m by (auto simp: good_line_def trim_idem)
  qed
  moreover have "stl_clean x = join_lines ls" by (simp add: stl_clean_def t_def ls_def)
  ultimately show ?thesis by blast
qed

lemma stl_clean_join_good:
  assumes "\<forall>l\<in>set ls. good_line l"
  shows "stl_clean (join_lines ls) = join_lines ls"
proof (cases "ls = []")
  case True
  then show ?thesis by (simp add: stl_clean_def trim_def)
next
  case False
  let ?t = "join_lines ls"
  have chars: "\<forall>c\<in>set ?t. c \<noteq> CR \<and> c \<noteq> 44 \<and> stl_keep c"
  proof
    fix c assume "c \<in> set ?t"
    then consider "c = LF" | l where "l \<in> set ls" "c \<in> set l"
      using set_join_lines[of ls] by auto
    then show "c \<noteq> CR \<and> c \<noteq> 44 \<and> stl_keep c"
    proof cases
      case 1 then show ?thesis by (simp add: LF_def CR_def stl_keep_def)
    next
      case 2 then show ?thesis using assms by (auto simp: good_line_def)
    qed
  qed
  have 1: "replace_crlf ?t = ?t" using chars by (intro replace_crlf_id) auto
  have 2: "map (\<lambda>c. if c = 44 then 32 else c) ?t = ?t" using chars by (intro map_idI) auto
  have 3: "filter stl_keep ?t = ?t" using chars by (intro filter_True) auto
  have 4: "split_lines ?t = ls" using False assms by (intro split_join_lines) (auto simp: good_line_def)
  have 5: "map trim ls = ls" using assms by (intro map_idI) (auto simp: good_line_def)
  have 6: "filter (\<lambda>line. line \<noteq> []) ls = ls" using assms by (intro filter_True) (auto simp: good_line_def)
  show ?thesis by (simp add: stl_clean_def 1 2 3 4 5 6)
qed

lemma good_solid_model: "good_line (js ''solid model'')"
  by (simp add: good_line_def js_def trim_def is_ws_def stl_keep_def LF_def CR_def)

lemma good_endsolid_model: "good_line (js ''endsolid model'')"
  by (simp add: good_line_def js_def trim_def is_ws_def stl_keep_def LF_def CR_def)

lemma somewhere_append: "somewhere p ys \<Longrightarrow> somewhere p (xs @ ys)"
  by (induction xs) auto

lemma somewhere_iff: "somewhere p s \<longleftrightarrow> (\<exists>n\<le>length s. p (drop n s))"
proof (induction s)
  case Nil then show ?case by simp
next
  case (Cons c cs)
  show ?case
  proof
    assume "somewhere p (c # cs)"
    then consider "p (c # cs)" | "somewhere p cs" by auto
    then show "\<exists>n\<le>length (c # cs). p (drop n (c # cs))"
    proof cases
      case 1 then show ?thesis by (intro exI[of _ 0]) simp
    next
      case 2
      then obtain n where "n \<le> length cs" "p (drop n cs)" using Cons.IH by auto
      then show ?thesis by (intro exI[of _ "Suc n"]) simp
    qed
  next
    assume "\<exists>n\<le>length (c # cs). p (drop n (c # cs))"
    then obtain n where n: "n \<le> length (c # cs)" "p (drop n (c # cs))" by auto
    show "somewhere p (c # cs)"
    proof (cases n)
      case 0 with n show ?thesis by simp
    next
      case (Suc m)
      with n have "m \<le> length cs" "p (drop m cs)" by auto
      then show ?thesis using Cons.IH by auto
    qed
  qed
qed

lemma ci_prefix_append: "ci_prefix kw s \<Longrightarrow> ci_prefix kw (s @ r)"
  by (auto simp: ci_prefix_def)

lemma kw_b_append_LF: "kw_b kw s \<Longrightarrow> kw_b kw (s @ LF # r)"
  unfolding kw_b_def
  by (cases "drop (length kw) s")
     (auto simp: ci_prefix_append word_end_def is_word_def LF_def ci_prefix_def)

lemma test_solid_append: "test_solid t \<Longrightarrow> test_solid (t @ LF # r)"
  unfolding test_solid_def by (rule kw_b_append_LF)

lemma test_solid_prepended: "test_solid (js ''solid model'' @ LF # t)"
  by (simp add: test_solid_def kw_b_def ci_prefix_def word_end_def js_def lower_def is_word_def)

lemma test_endsolid_appended: "test_endsolid (t @ LF # js ''endsolid model'')"
proof -
  have "kw_b (js ''endsolid'') (js ''endsolid model'')"
    by (simp add: kw_b_def ci_prefix_def word_end_def js_def lower_def is_word_def)
  then have "somewhere (kw_b (js ''endsolid'')) (js ''endsolid model'')"
    by (simp add: js_def)
  then have "somewhere (kw_b (js ''endsolid'')) ((t @ [LF]) @ js ''endsolid model'')"
    by (rule somewhere_append)
  then show ?thesis by (simp add: test_endsolid_def)
qed

lemma repairStlText_solid: "test_solid (repairStlText x)"
  by (auto simp: repairStlText_def Let_def test_solid_prepended intro: test_solid_append)

lemma repairStlText_endsolid: "test_endsolid (repairStlText x)"
  by (auto simp: repairStlText_def Let_def test_endsolid_appended)

lemma repairStlText_fixed_point:
  "stl_clean y = y \<Longrightarrow> test_solid y \<Longrightarrow> test_endsolid y \<Longrightarrow> repairStlText y = y"
  by (simp add: repairStlText_def)

lemma repairStlText_clean:
  assumes "stl_clean x \<noteq> []"
  shows "stl_clean (repairStlText x) = repairStlText x"
proof -
  obtain ls where ls: "stl_clean x = join_lines ls" "\<forall>l\<in>set ls. good_line l"
    using stl_clean_good by blast
  with assms have ne: "ls \<noteq> []" by auto
  define pre where "pre = (if test_solid (stl_clean x) then [] else [js ''solid model''])"
  define t1 where "t1 = (if \<not> test_solid (stl_clean x) then js ''solid model'' @ LF # stl_clean x else stl_clean x)"
  define post where "post = (if test_endsolid t1 then [] else [js ''endsolid model''])"
  have t1: "t1 = join_lines (pre @ ls)"
    using ne by (simp add: t1_def pre_def ls join_lines_Cons)
  have "repairStlText x = (if \<not> test_endsolid t1 then t1 @ LF # js ''endsolid model'' else t1)"
    by (simp add: repairStlText_def t1_def)
  also have "\<dots> = join_lines ((pre @ ls) @ post)"
    using ne join_lines_snoc[of "pre @ ls" "js ''endsolid model''"] by (simp add: post_def t1)
  finally have out: "repairStlText x = join_lines ((pre @ ls) @ post)" .
  have "\<forall>l\<in>set ((pre @ ls) @ post). good_line l"
    using ls(2) by (auto simp: pre_def post_def good_solid_model good_endsolid_model)
  then show ?thesis unfolding out by (rule stl_clean_join_good)
qed

text \<open>
  Claim C1 (as amended). \<^verbatim>\<open>repairStlText\<close> is a function of its input text alone, and
  it is idempotent on every input that keeps at least one non-blank line after cleaning
  (line endings normalised, commas replaced, non-printable characters removed, lines
  trimmed): repairing the repaired text gives the repaired text again.
\<close>

theorem repairStlText_idempotent:
  "stl_clean x \<noteq> [] \<Longrightarrow> repairStlText (repairStlText x) = repairStlText x"
  by (intro repairStlText_fixed_point repairStlText_clean repairStlText_solid repairStlText_endsolid)

theorem repairStlText_idempotent_witness:
  "stl_clean (js ''facet normal 0,5 0 1'') \<noteq> [] \<and>
   repairStlText (js ''facet normal 0,5 0 1'') =
     js ''solid model'' @ LF # js ''facet normal 0 5 0 1'' @ LF # js ''endsolid model'' \<and>
   repairStlText (repairStlText (js ''facet normal 0,5 0 1'')) =
     repairStlText (js ''facet normal 0,5 0 1'')"
proof -
  have h: "stl_clean (js ''facet normal 0,5 0 1'') \<noteq> []"
    by (simp add: stl_eval)
  have v: "repairStlText (js ''facet normal 0,5 0 1'') =
     js ''solid model'' @ LF # js ''facet normal 0 5 0 1'' @ LF # js ''endsolid model''"
    by (simp add: stl_eval)
  show ?thesis using h v repairStlText_idempotent [OF h] by simp
qed

text \<open>
  The claim as written (idempotent on every input) fails on the empty text, and on any
  text that is blank after cleaning: the synthetic header is followed by an empty line,
  which the second pass drops.
\<close>

theorem repairStlText_idempotent_counterexample:
  "repairStlText [] = js ''solid model'' @ [LF, LF] @ js ''endsolid model'' \<and>
   repairStlText (repairStlText []) = js ''solid model'' @ [LF] @ js ''endsolid model'' \<and>
   repairStlText (repairStlText []) \<noteq> repairStlText []"
  by (simp add: stl_eval)










section \<open>Properties of the SCAD repairer\<close>

lemmas scad_eval = repairScadText_def repair_line_def working_line_def geometry_assignment_def
  geometry_keywords_def assignment_prefix_def is_ident_start_def js_def kw_b_def ci_prefix_def
  word_end_def is_ws_def is_word_def lower_def LF_def CR_def BOM_def

lemma map_lines_eq:
  "map_lines i ls ch =
     (map (\<lambda>k. fst (repair_line (i + k) (ls ! k))) [0..<length ls],
      ch \<or> (\<exists>k<length ls. snd (repair_line (i + k) (ls ! k))))"
proof (induction ls arbitrary: i ch)
  case Nil
  then show ?case by simp
next
  case (Cons l ls)
  have m: "map (\<lambda>k. fst (repair_line (i + k) ((l # ls) ! k))) [0..<length (l # ls)] =
        fst (repair_line i l) # map (\<lambda>k. fst (repair_line (Suc i + k) (ls ! k))) [0..<length ls]"
    by (simp add: upt_conv_Cons map_Suc_upt[symmetric] del: upt_Suc)
  have e: "(\<exists>k<length (l # ls). snd (repair_line (i + k) ((l # ls) ! k))) \<longleftrightarrow>
        snd (repair_line i l) \<or> (\<exists>k<length ls. snd (repair_line (Suc i + k) (ls ! k)))"
    by (auto simp: less_Suc_eq_0_disj)
  show ?case
    unfolding m e
    by (cases "repair_line i l") (auto simp: Cons.IH)
qed

lemma ident_start_word: "is_ident_start c \<Longrightarrow> is_word c"
  by (auto simp: is_ident_start_def is_word_def)

lemma assignment_prefix_shape:
  assumes "assignment_prefix s = Some (ws, rest)"
  shows "\<exists>name g1 g2. s = ws @ name @ g1 @ 61 # g2 @ rest \<and>
           (\<forall>c\<in>set ws. is_ws c) \<and> name \<noteq> [] \<and> is_ident_start (hd name) \<and>
           (\<forall>c\<in>set name. is_word c) \<and> (\<forall>c\<in>set g1. is_ws c) \<and> (\<forall>c\<in>set g2. is_ws c)"
proof -
  from assms obtain c r where cr: "dropWhile is_ws s = c # r" and c: "is_ident_start c"
    by (auto simp: assignment_prefix_def split: list.splits if_splits)
  from assms cr c obtain r' where r': "dropWhile is_ws (dropWhile is_word r) = 61 # r'"
    and ws: "ws = takeWhile is_ws s" and rest: "rest = dropWhile is_ws r'"
    by (auto simp: assignment_prefix_def split: list.splits if_splits)
  define name where "name = c # takeWhile is_word r"
  define g1 where "g1 = takeWhile is_ws (dropWhile is_word r)"
  define g2 where "g2 = takeWhile is_ws r'"
  have "s = takeWhile is_ws s @ dropWhile is_ws s" by simp
  also have "dropWhile is_ws s = c # takeWhile is_word r @ dropWhile is_word r"
    using cr by simp
  also have "dropWhile is_word r = g1 @ dropWhile is_ws (dropWhile is_word r)"
    by (simp add: g1_def)
  also have "dropWhile is_ws (dropWhile is_word r) = 61 # g2 @ rest"
    using r' by (simp add: g2_def rest)
  finally have "s = ws @ name @ g1 @ 61 # g2 @ rest" by (simp add: ws name_def)
  moreover have "\<forall>c\<in>set ws. is_ws c" unfolding ws by (auto dest: set_takeWhileD)
  moreover have "\<forall>c\<in>set g1. is_ws c" unfolding g1_def by (auto dest: set_takeWhileD)
  moreover have "\<forall>c\<in>set g2. is_ws c" unfolding g2_def by (auto dest: set_takeWhileD)
  moreover have "\<forall>c\<in>set name. is_word c"
    unfolding name_def using c by (auto dest: set_takeWhileD intro: ident_start_word)
  moreover have "name \<noteq> []" "is_ident_start (hd name)" using c by (auto simp: name_def)
  ultimately show ?thesis by blast
qed

lemma geometry_assignment_prefix:
  "geometry_assignment w \<Longrightarrow> \<exists>ws rest. assignment_prefix w = Some (ws, rest) \<and>
      (\<exists>kw\<in>set geometry_keywords. kw_b kw rest)"
  by (auto simp: geometry_assignment_def list_ex_iff split: option.splits)

lemma repair_line_hit: "snd (repair_line i l) = geometry_assignment (working_line i l)"
  by (auto simp: repair_line_def Let_def split: option.splits)

lemma repair_line_miss: "\<not> geometry_assignment (working_line i l) \<Longrightarrow> fst (repair_line i l) = working_line i l"
  by (simp add: repair_line_def)

lemma repair_line_rewrite:
  assumes "geometry_assignment (working_line i l)"
  shows "\<exists>ws name g1 g2 rest. working_line i l = ws @ name @ g1 @ 61 # g2 @ rest \<and>
           fst (repair_line i l) = ws @ rest \<and>
           (\<forall>c\<in>set ws. is_ws c) \<and> name \<noteq> [] \<and> is_ident_start (hd name) \<and>
           (\<forall>c\<in>set name. is_word c) \<and> (\<forall>c\<in>set g1. is_ws c) \<and> (\<forall>c\<in>set g2. is_ws c) \<and>
           (\<exists>kw\<in>set geometry_keywords. kw_b kw rest)"
proof -
  from geometry_assignment_prefix[OF assms] obtain ws rest where
    p: "assignment_prefix (working_line i l) = Some (ws, rest)" and
    k: "\<exists>kw\<in>set geometry_keywords. kw_b kw rest" by blast
  have f: "fst (repair_line i l) = ws @ rest" using assms p by (simp add: repair_line_def)
  from assignment_prefix_shape[OF p] f k show ?thesis by blast
qed

lemma repair_line_changes:
  "fst (repair_line i l) \<noteq> working_line i l \<longleftrightarrow> geometry_assignment (working_line i l)"
proof (cases "geometry_assignment (working_line i l)")
  case True
  from repair_line_rewrite[OF True] obtain ws name g1 g2 rest where
    "working_line i l = ws @ name @ g1 @ 61 # g2 @ rest" "fst (repair_line i l) = ws @ rest" by blast
  then have "length (fst (repair_line i l)) < length (working_line i l)" by simp
  then show ?thesis using True by auto
next
  case False
  then show ?thesis by (simp add: repair_line_miss)
qed

lemma working_line_chars: "set (working_line i l) \<subseteq> set l"
  by (cases l) (auto simp: working_line_def)

lemma repair_line_chars: "set (fst (repair_line i l)) \<subseteq> set l"
proof (cases "geometry_assignment (working_line i l)")
  case True
  from repair_line_rewrite[OF True] obtain ws name g1 g2 rest where
    "working_line i l = ws @ name @ g1 @ 61 # g2 @ rest" "fst (repair_line i l) = ws @ rest" by blast
  then have "set (fst (repair_line i l)) \<subseteq> set (working_line i l)" by auto
  then show ?thesis using working_line_chars[of i l] by blast
next
  case False
  then show ?thesis using working_line_chars[of i l] by (simp add: repair_line_miss)
qed

lemma repairScadText_repaired:
  "repaired (repairScadText x) =
     join_lines (map (\<lambda>i. fst (repair_line i (split_lines (replace_crlf x) ! i)))
                     [0..<length (split_lines (replace_crlf x))])"
  by (simp add: repairScadText_def map_lines_eq Let_def)

lemma repairScadText_changed:
  "changed (repairScadText x) \<longleftrightarrow>
     (\<exists>i<length (split_lines (replace_crlf x)).
         geometry_assignment (working_line i (split_lines (replace_crlf x) ! i)))"
  by (simp add: repairScadText_def map_lines_eq repair_line_hit Let_def)

lemma repairScadText_lines:
  assumes "CR \<notin> set x"
  shows "split_lines (repaired (repairScadText x)) =
           map (\<lambda>i. fst (repair_line i (split_lines x ! i))) [0..<length (split_lines x)]"
proof -
  let ?ls = "split_lines x"
  let ?out = "map (\<lambda>i. fst (repair_line i (?ls ! i))) [0..<length ?ls]"
  have r: "repaired (repairScadText x) = join_lines ?out"
    using assms by (simp add: repairScadText_repaired replace_crlf_id)
  have ne: "?out \<noteq> []" using split_lines_nonempty[of x] by simp
  have "\<forall>l\<in>set ?out. LF \<notin> set l"
  proof
    fix l assume "l \<in> set ?out"
    then obtain i where i: "i < length ?ls" "l = fst (repair_line i (?ls ! i))" by auto
    then have "set l \<subseteq> set (?ls ! i)" using repair_line_chars by simp
    moreover have "LF \<notin> set (?ls ! i)" using split_lines_chars[of "?ls ! i" x] i(1) by auto
    ultimately show "LF \<notin> set l" by blast
  qed
  with ne show ?thesis unfolding r by (rule split_join_lines)
qed

text \<open>
  Claim C6. \<^verbatim>\<open>r = sphere(5);\<close> is rewritten to \<^verbatim>\<open>sphere(5);\<close> with \<open>changed\<close> true;
  \<^verbatim>\<open>translate([1,0,0]) cube(2);\<close> comes back unchanged with \<open>changed\<close> false; and for
  every input the flag \<open>changed\<close> is true exactly when some line was rewritten, that is,
  when the line returned by the callback differs from the line it worked on, which
  happens exactly on the lines that assign a geometry keyword to an identifier.
\<close>

theorem repairScadText_targets_assignment:
  "repairScadText (js ''r = sphere(5);'') = \<lparr>repaired = js ''sphere(5);'', changed = True\<rparr> \<and>
   repairScadText (js ''translate([1,0,0]) cube(2);'') =
     \<lparr>repaired = js ''translate([1,0,0]) cube(2);'', changed = False\<rparr> \<and>
   repaired (repairScadText x) =
     join_lines (map (\<lambda>i. fst (repair_line i (split_lines (replace_crlf x) ! i)))
                     [0..<length (split_lines (replace_crlf x))]) \<and>
   (changed (repairScadText x) \<longleftrightarrow>
      (\<exists>i<length (split_lines (replace_crlf x)).
          fst (repair_line i (split_lines (replace_crlf x) ! i)) \<noteq>
          working_line i (split_lines (replace_crlf x) ! i))) \<and>
   (\<forall>i l. fst (repair_line i l) \<noteq> working_line i l \<longleftrightarrow> geometry_assignment (working_line i l))"
proof -
  have 1: "repairScadText (js ''r = sphere(5);'') = \<lparr>repaired = js ''sphere(5);'', changed = True\<rparr>"
    by (simp add: scad_eval)
  have 2: "repairScadText (js ''translate([1,0,0]) cube(2);'') =
     \<lparr>repaired = js ''translate([1,0,0]) cube(2);'', changed = False\<rparr>"
    by (simp add: scad_eval)
  show ?thesis
    unfolding repair_line_changes
    using 1 2 repairScadText_repaired[of x] repairScadText_changed[of x] by blast
qed

theorem repairScadText_targets_assignment_witness:
  "split_lines (replace_crlf (js ''r = sphere(5);'')) = [js ''r = sphere(5);''] \<and>
   fst (repair_line 0 (js ''r = sphere(5);'')) = js ''sphere(5);'' \<and>
   fst (repair_line 0 (js ''r = sphere(5);'')) \<noteq> working_line 0 (js ''r = sphere(5);'') \<and>
   geometry_assignment (working_line 0 (js ''r = sphere(5);'')) \<and>
   changed (repairScadText (js ''r = sphere(5);''))"
proof -
  have s: "split_lines (replace_crlf (js ''r = sphere(5);'')) = [js ''r = sphere(5);'']"
    by (simp add: js_def LF_def CR_def)
  have f: "fst (repair_line 0 (js ''r = sphere(5);'')) = js ''sphere(5);''"
    by (simp add: scad_eval)
  have w: "working_line 0 (js ''r = sphere(5);'') = js ''r = sphere(5);''"
    by (simp add: scad_eval)
  have n: "js ''sphere(5);'' \<noteq> js ''r = sphere(5);''"
    by (simp add: js_def)
  note t = repairScadText_targets_assignment [of "js ''r = sphere(5);''"]
  from t have a: "fst (repair_line 0 (js ''r = sphere(5);'')) \<noteq> working_line 0 (js ''r = sphere(5);'')
      \<longleftrightarrow> geometry_assignment (working_line 0 (js ''r = sphere(5);''))"
    by blast
  from t have c: "changed (repairScadText (js ''r = sphere(5);''))"
    by simp
  have d: "fst (repair_line 0 (js ''r = sphere(5);'')) \<noteq> working_line 0 (js ''r = sphere(5);'')"
    unfolding f w by (rule n)
  from s f d a c show ?thesis by blast
qed

text \<open>
  Claim C10. On an input without carriage returns, the output has the lines of the
  input, one for one. A line that does not match the assignment pattern comes back
  character for character, the first line without its leading byte-order mark; a line
  that matches comes back as its leading whitespace followed by everything after the
  assignment prefix (identifier, optional whitespace, \<^verbatim>\<open>=\<close>, optional whitespace).
  \<open>changed\<close> is set by the matching lines alone, not by the removal of the mark.
\<close>

theorem repairScadText_frame:
  assumes "CR \<notin> set x"
  shows "length (split_lines (repaired (repairScadText x))) = length (split_lines x) \<and>
    (\<forall>i<length (split_lines x).
       (\<not> geometry_assignment (working_line i (split_lines x ! i)) \<longrightarrow>
          split_lines (repaired (repairScadText x)) ! i = working_line i (split_lines x ! i)) \<and>
       (geometry_assignment (working_line i (split_lines x ! i)) \<longrightarrow>
          (\<exists>ws name g1 g2 rest.
              working_line i (split_lines x ! i) = ws @ name @ g1 @ 61 # g2 @ rest \<and>
              split_lines (repaired (repairScadText x)) ! i = ws @ rest \<and>
              (\<forall>c\<in>set ws. is_ws c) \<and> name \<noteq> [] \<and> is_ident_start (hd name) \<and>
              (\<forall>c\<in>set name. is_word c) \<and> (\<forall>c\<in>set g1. is_ws c) \<and> (\<forall>c\<in>set g2. is_ws c) \<and>
              (\<exists>kw\<in>set geometry_keywords. kw_b kw rest)))) \<and>
    (\<forall>i l. working_line i l = (if i = 0 then strip_bom l else l)) \<and>
    (changed (repairScadText x) \<longleftrightarrow>
       (\<exists>i<length (split_lines x). geometry_assignment (working_line i (split_lines x ! i))))"
proof -
  note L = repairScadText_lines[OF assms]
  have len: "length (split_lines (repaired (repairScadText x))) = length (split_lines x)"
    unfolding L by simp
  have nth: "split_lines (repaired (repairScadText x)) ! i = fst (repair_line i (split_lines x ! i))"
    if "i < length (split_lines x)" for i
    unfolding L using that by simp
  have lines: "\<forall>i<length (split_lines x).
       (\<not> geometry_assignment (working_line i (split_lines x ! i)) \<longrightarrow>
          split_lines (repaired (repairScadText x)) ! i = working_line i (split_lines x ! i)) \<and>
       (geometry_assignment (working_line i (split_lines x ! i)) \<longrightarrow>
          (\<exists>ws name g1 g2 rest.
              working_line i (split_lines x ! i) = ws @ name @ g1 @ 61 # g2 @ rest \<and>
              split_lines (repaired (repairScadText x)) ! i = ws @ rest \<and>
              (\<forall>c\<in>set ws. is_ws c) \<and> name \<noteq> [] \<and> is_ident_start (hd name) \<and>
              (\<forall>c\<in>set name. is_word c) \<and> (\<forall>c\<in>set g1. is_ws c) \<and> (\<forall>c\<in>set g2. is_ws c) \<and>
              (\<exists>kw\<in>set geometry_keywords. kw_b kw rest)))"
  proof (intro allI impI conjI)
    fix i assume i: "i < length (split_lines x)"
    { assume "\<not> geometry_assignment (working_line i (split_lines x ! i))"
      then show "split_lines (repaired (repairScadText x)) ! i = working_line i (split_lines x ! i)"
        using nth[OF i] by (simp add: repair_line_miss) }
    { assume "geometry_assignment (working_line i (split_lines x ! i))"
      from repair_line_rewrite[OF this]
      show "\<exists>ws name g1 g2 rest.
              working_line i (split_lines x ! i) = ws @ name @ g1 @ 61 # g2 @ rest \<and>
              split_lines (repaired (repairScadText x)) ! i = ws @ rest \<and>
              (\<forall>c\<in>set ws. is_ws c) \<and> name \<noteq> [] \<and> is_ident_start (hd name) \<and>
              (\<forall>c\<in>set name. is_word c) \<and> (\<forall>c\<in>set g1. is_ws c) \<and> (\<forall>c\<in>set g2. is_ws c) \<and>
              (\<exists>kw\<in>set geometry_keywords. kw_b kw rest)"
        unfolding nth[OF i] . }
  qed
  have ch: "changed (repairScadText x) \<longleftrightarrow>
       (\<exists>i<length (split_lines x). geometry_assignment (working_line i (split_lines x ! i)))"
    using assms by (simp add: repairScadText_changed replace_crlf_id)
  have wl: "\<forall>i l. working_line i l = (if i = 0 then strip_bom l else l)"
    by (simp add: working_line_def)
  from len lines wl ch show ?thesis by blast
qed

theorem repairScadText_frame_witness:
  "CR \<notin> set (BOM # js ''cube(1);'' @ LF # js ''  r = sphere(5);'') \<and>
   split_lines (BOM # js ''cube(1);'' @ LF # js ''  r = sphere(5);'') =
     [BOM # js ''cube(1);'', js ''  r = sphere(5);''] \<and>
   \<not> geometry_assignment (working_line 0 (BOM # js ''cube(1);'')) \<and>
   split_lines (repaired (repairScadText (BOM # js ''cube(1);'' @ LF # js ''  r = sphere(5);''))) ! 0 =
     js ''cube(1);'' \<and>
   geometry_assignment (working_line 1 (js ''  r = sphere(5);'')) \<and>
   changed (repairScadText (BOM # js ''cube(1);'' @ LF # js ''  r = sphere(5);''))"
proof -
  let ?x = "BOM # js ''cube(1);'' @ LF # js ''  r = sphere(5);''"
  have h: "CR \<notin> set ?x" by (simp add: js_def CR_def LF_def BOM_def)
  have s: "split_lines ?x = [BOM # js ''cube(1);'', js ''  r = sphere(5);'']"
    by (simp add: js_def LF_def BOM_def)
  have w0: "working_line 0 (BOM # js ''cube(1);'') = js ''cube(1);''"
    by (simp add: working_line_def)
  have g0: "\<not> geometry_assignment (working_line 0 (BOM # js ''cube(1);''))"
    by (simp add: scad_eval)
  have g1: "geometry_assignment (working_line 1 (js ''  r = sphere(5);''))"
    by (simp add: scad_eval)
  note t = repairScadText_frame [OF h, unfolded s]
  from t have "\<not> geometry_assignment (working_line 0 ([BOM # js ''cube(1);'', js ''  r = sphere(5);''] ! 0)) \<longrightarrow>
      split_lines (repaired (repairScadText ?x)) ! 0 =
        working_line 0 ([BOM # js ''cube(1);'', js ''  r = sphere(5);''] ! 0)"
    by simp
  with g0 w0 have l0: "split_lines (repaired (repairScadText ?x)) ! 0 = js ''cube(1);''"
    by simp
  from t have "changed (repairScadText ?x) \<longleftrightarrow>
      (\<exists>i<length [BOM # js ''cube(1);'', js ''  r = sphere(5);''].
         geometry_assignment (working_line i ([BOM # js ''cube(1);'', js ''  r = sphere(5);''] ! i)))"
    by blast
  moreover have "\<exists>i<length [BOM # js ''cube(1);'', js ''  r = sphere(5);''].
         geometry_assignment (working_line i ([BOM # js ''cube(1);'', js ''  r = sphere(5);''] ! i))"
    using g1 by (intro exI[of _ 1]) simp
  ultimately have c: "changed (repairScadText ?x)" by blast
  from h s g0 l0 g1 c show ?thesis by blast
qed

section \<open>Properties of the SCAD fixer and of the SCAD path\<close>

lemmas fix_eval = compileScad_def normalizeScadText_def scad_control_def
  getScadErrorMessage_def or_else_def

lemma compileScad_calls:
  "length (snd (snd (compileScad eng t st))) \<le> length (snd st) + 1 \<and>
   (\<forall>render. eng = Engine render \<longrightarrow>
       snd (snd (compileScad eng t st)) = snd st @ [normalizeScadText t]) \<and>
   (\<forall>m. eng = Unavailable m \<longrightarrow> compileScad eng t st = (Inl m, st))"
  by (cases eng)
     (auto simp: compileScad_def Let_def split: prod.splits render_result.splits render_value.splits)

text \<open>
  Claim C8. One fix attempt compiles the text once. If that succeeds the text is returned
  as it is. If it fails the SCAD repairer runs; when it reports no change, the error of
  the first compile is the result and nothing is compiled again; when it changed the
  text, the repaired text is compiled exactly once more and that outcome is final. The
  engine is called at most twice, with the normalised text and then the normalised
  repaired text.
\<close>

theorem fixScad_bounded:
  "(case compileScad eng src (s, []) of
      (Inr stl, st1) \<Rightarrow>
        fixScad eng src (s, []) =
          (\<lparr>fixed = src, fix_changed = False, ok = True, errorMessage = None\<rparr>, st1)
    | (Inl error, st1) \<Rightarrow>
        if \<not> changed (repairScadText src)
        then fixScad eng src (s, []) =
               (\<lparr>fixed = src, fix_changed = False, ok = False, errorMessage = error\<rparr>, st1)
        else (case compileScad eng (repaired (repairScadText src)) st1 of
                (Inr stl, st2) \<Rightarrow>
                  fixScad eng src (s, []) =
                    (\<lparr>fixed = repaired (repairScadText src), fix_changed = True, ok = True,
                      errorMessage = None\<rparr>, st2)
              | (Inl retryError, st2) \<Rightarrow>
                  fixScad eng src (s, []) =
                    (\<lparr>fixed = repaired (repairScadText src), fix_changed = True, ok = False,
                      errorMessage = retryError\<rparr>, st2))) \<and>
   length (snd (snd (compileScad eng src (s, [])))) \<le> 1 \<and>
   length (snd (snd (fixScad eng src (s, [])))) \<le> 2 \<and>
   (\<forall>render. eng = Engine render \<longrightarrow>
      snd (snd (fixScad eng src (s, []))) =
        (if isl (fst (compileScad eng src (s, []))) \<and> changed (repairScadText src)
         then [normalizeScadText src, normalizeScadText (repaired (repairScadText src))]
         else [normalizeScadText src]))"
proof -
  obtain c1 st1 where c1: "compileScad eng src (s, []) = (c1, st1)" by (cases "compileScad eng src (s, [])")
  obtain c2 st2 where c2: "compileScad eng (repaired (repairScadText src)) st1 = (c2, st2)"
    by (cases "compileScad eng (repaired (repairScadText src)) st1")
  have l1: "length (snd st1) \<le> 1"
    using compileScad_calls[of eng src "(s, [])"] c1 by simp
  have l2: "length (snd st2) \<le> 2"
    using compileScad_calls[of eng "repaired (repairScadText src)" st1] c2 l1 by simp
  have e1: "snd st1 = [normalizeScadText src]" if "eng = Engine render" for render
    using compileScad_calls[of eng src "(s, [])"] c1 that by simp
  have e2: "snd st2 = [normalizeScadText src, normalizeScadText (repaired (repairScadText src))]"
    if "eng = Engine render" for render
    using compileScad_calls[of eng "repaired (repairScadText src)" st1] c2 e1[OF that] that by simp
  have A: "case compileScad eng src (s, []) of
      (Inr stl, st1) \<Rightarrow>
        fixScad eng src (s, []) =
          (\<lparr>fixed = src, fix_changed = False, ok = True, errorMessage = None\<rparr>, st1)
    | (Inl error, st1) \<Rightarrow>
        if \<not> changed (repairScadText src)
        then fixScad eng src (s, []) =
               (\<lparr>fixed = src, fix_changed = False, ok = False, errorMessage = error\<rparr>, st1)
        else (case compileScad eng (repaired (repairScadText src)) st1 of
                (Inr stl, st2) \<Rightarrow>
                  fixScad eng src (s, []) =
                    (\<lparr>fixed = repaired (repairScadText src), fix_changed = True, ok = True,
                      errorMessage = None\<rparr>, st2)
              | (Inl retryError, st2) \<Rightarrow>
                  fixScad eng src (s, []) =
                    (\<lparr>fixed = repaired (repairScadText src), fix_changed = True, ok = False,
                      errorMessage = retryError\<rparr>, st2))"
    by (auto simp: fixScad_def Let_def split: prod.splits sum.splits)
  have st: "snd (fixScad eng src (s, [])) =
      (if isl c1 \<and> changed (repairScadText src) then st2 else st1)"
    using c1 c2 by (cases c1; cases c2) (auto simp: fixScad_def Let_def)
  have B: "length (snd (snd (compileScad eng src (s, [])))) \<le> 1" using c1 l1 by simp
  have C: "length (snd (snd (fixScad eng src (s, [])))) \<le> 2" unfolding st using l1 l2 by auto
  have D: "\<forall>render. eng = Engine render \<longrightarrow>
      snd (snd (fixScad eng src (s, []))) =
        (if isl (fst (compileScad eng src (s, []))) \<and> changed (repairScadText src)
         then [normalizeScadText src, normalizeScadText (repaired (repairScadText src))]
         else [normalizeScadText src])"
    unfolding st c1 using e1 e2 by auto
  from A B C D show ?thesis by blast
qed

theorem fixScad_bounded_witness:
  "compileScad (Engine (\<lambda>n t. if n = (0::nat)
        then (\<lparr>printed = [js ''ERROR: Parser error in line 1''], result = Threw (Some (js ''abort''))\<rparr>, n + 1)
        else (\<lparr>printed = [], result = Returned (Str (js ''solid OpenSCAD_Model''))\<rparr>, n + 1))) (js ''r = sphere(5);'') (0, []) =
     (Inl (Some (js ''ERROR: Parser error in line 1'')), (1, [js ''r = sphere(5);''])) \<and>
   changed (repairScadText (js ''r = sphere(5);'')) \<and>
   compileScad (Engine (\<lambda>n t. if n = (0::nat)
        then (\<lparr>printed = [js ''ERROR: Parser error in line 1''], result = Threw (Some (js ''abort''))\<rparr>, n + 1)
        else (\<lparr>printed = [], result = Returned (Str (js ''solid OpenSCAD_Model''))\<rparr>, n + 1))) (js ''sphere(5);'') (1, [js ''r = sphere(5);'']) =
     (Inr (js ''solid OpenSCAD_Model''), (2, [js ''r = sphere(5);'', js ''sphere(5);''])) \<and>
   fixScad (Engine (\<lambda>n t. if n = (0::nat)
        then (\<lparr>printed = [js ''ERROR: Parser error in line 1''], result = Threw (Some (js ''abort''))\<rparr>, n + 1)
        else (\<lparr>printed = [], result = Returned (Str (js ''solid OpenSCAD_Model''))\<rparr>, n + 1))) (js ''r = sphere(5);'') (0, []) =
     (\<lparr>fixed = js ''sphere(5);'', fix_changed = True, ok = True, errorMessage = None\<rparr>,
      (2, [js ''r = sphere(5);'', js ''sphere(5);'']))"
proof -
  let ?E = "(Engine (\<lambda>n t. if n = (0::nat)
        then (\<lparr>printed = [js ''ERROR: Parser error in line 1''], result = Threw (Some (js ''abort''))\<rparr>, n + 1)
        else (\<lparr>printed = [], result = Returned (Str (js ''solid OpenSCAD_Model''))\<rparr>, n + 1)))"
  have c1: "compileScad ?E (js ''r = sphere(5);'') (0, []) =
     (Inl (Some (js ''ERROR: Parser error in line 1'')), (1, [js ''r = sphere(5);'']))"
    by (simp add: fix_eval js_def is_ws_def ci_prefix_def lower_def trim_def BOM_def CR_def LF_def)
  have rep: "repairScadText (js ''r = sphere(5);'') = \<lparr>repaired = js ''sphere(5);'', changed = True\<rparr>"
    by (simp add: scad_eval)
  have c2: "compileScad ?E (js ''sphere(5);'') (1, [js ''r = sphere(5);'']) =
     (Inr (js ''solid OpenSCAD_Model''), (2, [js ''r = sphere(5);'', js ''sphere(5);'']))"
    by (simp add: fix_eval js_def is_ws_def ci_prefix_def lower_def trim_def BOM_def CR_def LF_def)
  have f: "fixScad ?E (js ''r = sphere(5);'') (0, []) =
     (\<lparr>fixed = js ''sphere(5);'', fix_changed = True, ok = True, errorMessage = None\<rparr>,
      (2, [js ''r = sphere(5);'', js ''sphere(5);'']))"
    using fixScad_bounded [where eng = "?E" and s = 0 and src = "js ''r = sphere(5);''"]
    unfolding c1 rep using c2 by simp
  from c1 rep c2 f show ?thesis by simp
qed

lemma parseScad_needs_backslash:
  assumes "92 \<notin> set t"
  shows "parseScad (Returned (Str t)) = CompileFailure"
proof -
  have "\<not> ci_prefix (js ''solid'' @ 92 # js ''b'') u" if u: "set u \<subseteq> set t" for u
  proof
    assume "ci_prefix (js ''solid'' @ 92 # js ''b'') u"
    then have len: "6 \<le> length u" and "lower (u ! 5) = 92"
      by (auto simp: ci_prefix_def js_def list_eq_iff_nth_eq nth_append dest!: spec[of _ 5])
    then have "u ! 5 = 92" by (auto simp: lower_def split: if_splits)
    moreover have "u ! 5 \<in> set u" using len by (intro nth_mem) simp
    ultimately show False using assms u by auto
  qed
  then have "\<not> ci_prefix (js ''solid'' @ 92 # js ''b'') (drop n t)" for n
    using set_drop_subset[of n t] by blast
  then have "\<not> somewhere (ci_prefix (js ''solid'' @ 92 # js ''b'')) t"
    by (simp add: somewhere_iff)
  then show ?thesis by (simp add: parseScad_def)
qed

text \<open>
  Claim C3 says that STL text returned by the engine, when it is not empty, is accepted
  by the SCAD path and parsed as STL. The code at a one-facet STL text: \<^verbatim>\<open>parseScad\<close>
  of app.js throws the compile failure, because its pattern asks for a backslash after
  \<^verbatim>\<open>solid\<close>; \<^verbatim>\<open>compileScad\<close> of fixer.js accepts the same output.
\<close>

theorem parseScad_rejects_stl:
  "parseScad (Returned (Str stl_facet)) = CompileFailure \<and>
   fst (compileScad (Engine (\<lambda>s t. (\<lparr>printed = [], result = Returned (Str stl_facet)\<rparr>, s)))
          (js ''cube(1);'') ((), [])) = Inr stl_facet"
proof -
  have "92 \<notin> set stl_facet" by (simp add: stl_facet_def js_def LF_def)
  then have 1: "parseScad (Returned (Str stl_facet)) = CompileFailure"
    by (rule parseScad_needs_backslash)
  have "trim stl_facet \<noteq> []"
    by (simp add: stl_facet_def js_def LF_def trim_def is_ws_def)
  then have 2: "fst (compileScad (Engine (\<lambda>s t. (\<lparr>printed = [], result = Returned (Str stl_facet)\<rparr>, s)))
          (js ''cube(1);'') ((), [])) = Inr stl_facet"
    by (simp add: compileScad_def)
  from 1 2 show ?thesis by simp
qed

section \<open>Properties of the OFF parser\<close>

lemmas off_eval = parseOff_def off_counts_def off_lines_def off_header_ok_def strip_off_header_def
  face_triangles_def fan_triangles_def off_fixture_def js_def trim_def is_ws_def ci_prefix_def
  lower_def LF_def CR_def split_ws.simps

lemma parseOff_fixture:
  assumes "\<forall>d<5. Number [48 + d] = Fin (of_nat d)"
  shows "parseOff Number off_fixture =
           Inr \<lparr>position_array = map Fin [0, 0, 0, 1, 0, 0, 1, 1, 0, 0, 1, 0],
                index_array = map Fin [0, 1, 2, 0, 2, 3]\<rparr>"
proof -
  have n: "Number [48] = Fin 0" "Number [49] = Fin 1" "Number [50] = Fin 2"
    "Number [51] = Fin 3" "Number [52] = Fin 4"
    using assms[rule_format, of 0] assms[rule_format, of 1] assms[rule_format, of 2]
      assms[rule_format, of 3] assms[rule_format, of 4] by simp_all
  show ?thesis by (simp add: off_eval n)
qed

















section \<open>Properties of the model statistics\<close>

lemmas stats_eval = computeObjectStats_def validateObject_def visit_child_def off_mesh_def
  makeEmpty_def box_union_def vec_map2_def isEmpty_def getSize_def num_min_def num_max_def

lemma four_thirds_fractional: "(4 / 3 :: rat) \<notin> \<int>"
proof
  assume "(4 / 3 :: rat) \<in> \<int>"
  then obtain z :: int where "(4 / 3 :: rat) = of_int z" by (auto elim: Ints_cases)
  then have "(4 :: rat) = of_int (3 * z)" by simp
  then have "(4 :: int) = 3 * z" by (metis of_int_eq_iff of_int_numeral)
  then show False by presburger
qed

lemma validateObject_valid:
  "validateObject object = None \<Longrightarrow>
     0 < triangles (computeObjectStats object) \<and> \<not> isEmpty (bounds (computeObjectStats object)) \<and>
     (case size_vec (computeObjectStats object) of
        (x, y, z) \<Rightarrow> is_finite x \<and> is_finite y \<and> is_finite z)"
  by (auto simp: validateObject_def Let_def split: if_splits prod.splits)

text \<open>
  Claim C4 says that the triangle count of a loaded model is an integer, never
  fractional. The code at the mesh that \<^verbatim>\<open>parseOff\<close> builds from the OFF fixture (4
  vertices, 2 triangles in its index): \<^verbatim>\<open>computeObjectStats\<close> divides the number of
  vertices by 3 and reports four thirds of a triangle, and \<^verbatim>\<open>validateObject\<close> accepts
  the model.
\<close>

theorem computeObjectStats_off_fixture:
  "parseOff digits_number off_fixture =
     Inr \<lparr>position_array = map Fin [0, 0, 0, 1, 0, 0, 1, 1, 0, 0, 1, 0],
          index_array = map Fin [0, 1, 2, 0, 2, 3]\<rparr> \<and>
   length (map Fin [0, 1, 2, 0, 2, 3]) div 3 = (2 :: nat) \<and>
   triangles (computeObjectStats
     [off_mesh \<lparr>position_array = map Fin [0, 0, 0, 1, 0, 0, 1, 1, 0, 0, 1, 0],
                index_array = map Fin [0, 1, 2, 0, 2, 3]\<rparr>
        (Some \<lparr>bmin = (Fin 0, Fin 0, Fin 0), bmax = (Fin 1, Fin 1, Fin 0)\<rparr>)]) = 4 / 3 \<and>
   (4 / 3 :: rat) \<notin> \<int> \<and>
   validateObject
     [off_mesh \<lparr>position_array = map Fin [0, 0, 0, 1, 0, 0, 1, 1, 0, 0, 1, 0],
                index_array = map Fin [0, 1, 2, 0, 2, 3]\<rparr>
        (Some \<lparr>bmin = (Fin 0, Fin 0, Fin 0), bmax = (Fin 1, Fin 1, Fin 0)\<rparr>)] = None"
proof -
  have 1: "parseOff digits_number off_fixture =
     Inr \<lparr>position_array = map Fin [0, 0, 0, 1, 0, 0, 1, 1, 0, 0, 1, 0],
          index_array = map Fin [0, 1, 2, 0, 2, 3]\<rparr>"
    by (rule parseOff_fixture) (simp add: digits_number_def)
  have 2: "triangles (computeObjectStats
     [off_mesh \<lparr>position_array = map Fin [0, 0, 0, 1, 0, 0, 1, 1, 0, 0, 1, 0],
                index_array = map Fin [0, 1, 2, 0, 2, 3]\<rparr>
        (Some \<lparr>bmin = (Fin 0, Fin 0, Fin 0), bmax = (Fin 1, Fin 1, Fin 0)\<rparr>)]) = 4 / 3"
    by (simp add: stats_eval)
  have 3: "validateObject
     [off_mesh \<lparr>position_array = map Fin [0, 0, 0, 1, 0, 0, 1, 1, 0, 0, 1, 0],
                index_array = map Fin [0, 1, 2, 0, 2, 3]\<rparr>
        (Some \<lparr>bmin = (Fin 0, Fin 0, Fin 0), bmax = (Fin 1, Fin 1, Fin 0)\<rparr>)] = None"
    by (simp add: stats_eval)
  have 4: "length (map Fin [0, 1, 2, 0, 2, 3]) div 3 = (2 :: nat)" by simp
  from 1 2 four_thirds_fractional 3 4 show ?thesis by blast
qed

section \<open>Properties of the repair prompt\<close>

lemmas app_eval = loadInput_def applyRepair_def showRepairPrompt_def hideRepairPrompt_def
  clearModel_def setStatus_def is_text_def or_else_def

lemma js_Nil_iff: "js s = [] \<longleftrightarrow> s = []"
  by (simp add: js_def)

lemma applyRepair_reloads:
  assumes "repairModal p" "pendingRepairText p = Some t" "t \<noteq> []"
  shows "applyRepair P p =
           loadInput P Stl (TextData (repairStlText t)) False
             (p\<lparr>modal_hidden := True, pendingRepairText := None, stlText_value := repairStlText t\<rparr>)"
proof -
  have "repairStlText t \<noteq> []"
    using repairStlText_solid[of t] by (auto simp: test_solid_def kw_b_def ci_prefix_def js_def)
  with assms show ?thesis by (simp add: applyRepair_def hideRepairPrompt_def Let_def)
qed

lemma loadInput_no_offer:
  "pendingRepairText (loadInput P fmt dat False p) = pendingRepairText p \<and>
   modal_hidden (loadInput P fmt dat False p) = modal_hidden p"
  by (simp add: app_eval Let_def split: parsed.splits option.splits)

text \<open>
  Claim C9 says that a confirmed repair whose output equals the original text reports
  that nothing could be fixed and does not parse again. The code at such a text: the
  repairer returns the pending text unchanged, yet \<^verbatim>\<open>applyRepair\<close> calls
  \<^verbatim>\<open>loadInput\<close> a second time (with \<^verbatim>\<open>allowRepair\<close> false) and the status is the
  parser's verdict, because the prompt was hidden, and the pending text cleared, before
  the comparison.
\<close>

theorem applyRepair_unchanged_text_reparses:
  "pendingRepairText (loadInput empty_stl_parser Stl (TextData stl_no_triangle) True fresh_page) =
     Some stl_no_triangle \<and>
   repairStlText stl_no_triangle = stl_no_triangle \<and>
   load_calls (applyRepair empty_stl_parser
       (loadInput empty_stl_parser Stl (TextData stl_no_triangle) True fresh_page)) =
     [(Stl, TextData stl_no_triangle, True), (Stl, TextData stl_no_triangle, False)] \<and>
   status (applyRepair empty_stl_parser
       (loadInput empty_stl_parser Stl (TextData stl_no_triangle) True fresh_page)) =
     (js ''No triangles found. Check that the data is valid.'', True)"
proof -
  let ?p = "loadInput empty_stl_parser Stl (TextData stl_no_triangle) True fresh_page"
  have v: "validateObject
      [\<lparr>isMesh = True, geometry = Some \<lparr>position_count = Some 0, world_box = None\<rparr>\<rparr>] =
      Some ''No triangles found. Check that the data is valid.''"
    by (simp add: validateObject_def computeObjectStats_def visit_child_def)
  have r: "repairStlText stl_no_triangle = stl_no_triangle"
    by (simp add: stl_no_triangle_def stl_eval)
  have ne: "stl_no_triangle \<noteq> []" by (simp add: stl_no_triangle_def)
  have m: "repairModal ?p" and pe: "pendingRepairText ?p = Some stl_no_triangle"
    and lc: "load_calls ?p = [(Stl, TextData stl_no_triangle, True)]"
    by (simp_all add: app_eval empty_stl_parser_def fresh_page_def v Let_def js_Nil_iff)
  have a: "applyRepair empty_stl_parser ?p =
      loadInput empty_stl_parser Stl (TextData stl_no_triangle) False
        (?p\<lparr>modal_hidden := True, pendingRepairText := None, stlText_value := stl_no_triangle\<rparr>)"
    using applyRepair_reloads[OF m pe ne, of empty_stl_parser] unfolding r .
  have c: "load_calls (applyRepair empty_stl_parser ?p) =
     [(Stl, TextData stl_no_triangle, True), (Stl, TextData stl_no_triangle, False)]"
    unfolding a using lc by (simp add: app_eval empty_stl_parser_def v Let_def js_Nil_iff)
  have s: "status (applyRepair empty_stl_parser ?p) =
     (js ''No triangles found. Check that the data is valid.'', True)"
    unfolding a by (simp add: app_eval empty_stl_parser_def v Let_def js_Nil_iff)
  from pe r c s show ?thesis by blast
qed

section \<open>Properties of the format detection\<close>

lemmas detect_eval = detectFormatFromText_def looks_gltf_def looks_stl_def looks_ply_def looks_off_def
  looks_obj_def looks_scad_def scad_keyword_def scad_keywords_def obj_line_def obj_statement_def
  obj_keywords_def facet_normal_def asset_key_def starts_object_def is_line_term_def kw_b_def
  ci_prefix_def word_end_def is_word_def is_ws_def lower_def trim_def js_def

lemma somewhere_after_closed:
  "\<forall>c\<in>set s. \<not> opens c \<Longrightarrow> somewhere_after opens p here s = (here \<and> p s)"
  by (induction s arbitrary: here) auto

lemma somewhere_after_append:
  "\<forall>c\<in>set s. \<not> opens c \<Longrightarrow> s \<noteq> [] \<Longrightarrow>
     somewhere_after opens p here (s @ r) = ((here \<and> p (s @ r)) \<or> somewhere_after opens p False r)"
proof (induction s arbitrary: here)
  case Nil
  then show ?case by simp
next
  case (Cons c s)
  show ?case
  proof (cases "s = []")
    case True
    with Cons.prems show ?thesis by simp
  next
    case False
    with Cons.prems Cons.IH[of False] show ?thesis by simp
  qed
qed

lemma trim_id: "s \<noteq> [] \<Longrightarrow> \<not> is_ws (hd s) \<Longrightarrow> \<not> is_ws (last s) \<Longrightarrow> trim s = s"
proof -
  assume s: "s \<noteq> []" and h: "\<not> is_ws (hd s)" and l: "\<not> is_ws (last s)"
  have 1: "dropWhile is_ws s = s" using s h by (cases s) auto
  have "rev s \<noteq> []" using s by simp
  then obtain a r where ar: "rev s = a # r" by (cases "rev s") auto
  have "hd (rev s) = last s" using s by (simp add: hd_rev)
  then have "a = last s" unfolding ar by simp
  then have 2: "dropWhile is_ws (rev s) = rev s" unfolding ar using l by simp
  show ?thesis by (simp add: trim_def 1 2)
qed

lemma letter_x_no_rule:
  "\<not> starts_object (120 # t)" "\<not> kw_b (js ''solid'') (120 # t)" "\<not> kw_b (js ''ply'') (120 # t)"
  "\<not> kw_b (js ''coff'') (120 # t)" "\<not> kw_b (js ''off'') (120 # t)" "\<not> obj_line (120 # t)"
  "\<not> scad_keyword (120 # t)"
  by (simp_all add: starts_object_def kw_b_def ci_prefix_def js_def lower_def is_ws_def obj_line_def
        obj_statement_def obj_keywords_def scad_keyword_def scad_keywords_def)

lemma late_scad_head: "late_scad = 120 # replicate 519 120 @ js '' cube(1);''"
proof -
  have "replicate 520 (120::nat) = 120 # replicate 519 120"
    by (simp add: replicate_Suc[symmetric] del: replicate_Suc)
  then show ?thesis by (simp add: late_scad_def)
qed

lemma late_scad_trim: "trim (strip_bom late_scad) = late_scad"
proof -
  have "strip_bom late_scad = late_scad" by (simp add: late_scad_head BOM_def)
  moreover have "trim late_scad = late_scad"
    by (rule trim_id) (simp_all add: late_scad_def js_def is_ws_def)
  ultimately show ?thesis by simp
qed

lemma late_scad_detected: "detectFormatFromText late_scad = Some Scad"
proof -
  have t: "trim late_scad = late_scad"
    by (rule trim_id) (simp_all add: late_scad_def js_def is_ws_def)
  have ne: "late_scad \<noteq> []" by (simp add: late_scad_head)
  have g: "\<not> looks_gltf late_scad" "\<not> looks_stl late_scad" "\<not> looks_ply late_scad"
    "\<not> looks_off late_scad"
    unfolding late_scad_head looks_gltf_def looks_stl_def looks_ply_def looks_off_def
    using letter_x_no_rule by blast+
  have "\<forall>c\<in>set late_scad. \<not> is_line_term c"
    by (auto simp: late_scad_def js_def is_line_term_def)
  then have "looks_obj late_scad \<longleftrightarrow> obj_line late_scad"
    unfolding looks_obj_def by (simp add: somewhere_after_closed)
  then have o: "\<not> looks_obj late_scad" using letter_x_no_rule(6) by (simp add: late_scad_head)
  have "somewhere_after (\<lambda>c. \<not> is_word c) scad_keyword True (replicate 520 120 @ js '' cube(1);'') =
      ((True \<and> scad_keyword (replicate 520 120 @ js '' cube(1);'')) \<or>
        somewhere_after (\<lambda>c. \<not> is_word c) scad_keyword False (js '' cube(1);''))"
    by (rule somewhere_after_append) (simp_all add: is_word_def)
  moreover have "somewhere_after (\<lambda>c. \<not> is_word c) scad_keyword False (js '' cube(1);'')"
    by (simp add: scad_keyword_def scad_keywords_def kw_b_def ci_prefix_def word_end_def js_def
          lower_def is_word_def)
  ultimately have s: "looks_scad late_scad" by (simp add: looks_scad_def late_scad_def)
  show ?thesis using t ne g o s by (simp add: detectFormatFromText_def)
qed

lemma late_scad_header: "detectFormatFromText (take 512 late_scad) = None"
proof -
  have tk: "take 512 late_scad = replicate 512 120" by (simp add: late_scad_def)
  have hd: "replicate 512 (120::nat) = 120 # replicate 511 120"
    by (simp add: replicate_Suc[symmetric] del: replicate_Suc)
  have t: "trim (replicate 512 120) = replicate 512 120"
    by (rule trim_id) (simp_all add: is_ws_def)
  have g: "\<not> looks_gltf (replicate 512 120)" "\<not> looks_stl (replicate 512 120)"
    "\<not> looks_ply (replicate 512 120)" "\<not> looks_off (replicate 512 120)"
    unfolding hd looks_gltf_def looks_stl_def looks_ply_def looks_off_def
    using letter_x_no_rule by blast+
  have "looks_obj (replicate 512 120) \<longleftrightarrow> obj_line (replicate 512 120)"
    unfolding looks_obj_def by (simp add: somewhere_after_closed is_line_term_def)
  then have o: "\<not> looks_obj (replicate 512 120)" using letter_x_no_rule(6) by (simp add: hd)
  have "looks_scad (replicate 512 120) \<longleftrightarrow> scad_keyword (replicate 512 120)"
    unfolding looks_scad_def by (simp add: somewhere_after_closed is_word_def)
  then have s: "\<not> looks_scad (replicate 512 120)" using letter_x_no_rule(7) by (simp add: hd)
  show ?thesis unfolding tk using t g o s by (simp add: detectFormatFromText_def)
qed

text \<open>
  Claim C5 as written has detection look at the first 512 characters only, whatever the
  input. A pasted text is detected on its whole length: 520 letters followed by a SCAD
  statement are classified as SCAD, although the first 512 characters alone match no
  rule.
\<close>

theorem detection_beyond_512_counterexample:
  "length late_scad = 529 \<and>
   detectFormatFromText (take 512 late_scad) = None \<and>
   handleText_format late_scad = Some Scad"
proof -
  have "length late_scad = 529" by (simp add: late_scad_def js_def)
  moreover have "late_scad \<noteq> []" by (simp add: late_scad_def)
  then have "handleText_format late_scad = Some Scad"
    unfolding handleText_format_def late_scad_trim Let_def using late_scad_detected by simp
  ultimately show ?thesis using late_scad_header by simp
qed

lemma trim_strip_bom: "trim (strip_bom v) = trim v"
  by (cases v) (auto simp: trim_def is_ws_def BOM_def)

lemma detectFormatFromText_trim: "detectFormatFromText (trim t) = detectFormatFromText t"
  by (simp add: detectFormatFromText_def trim_idem)

lemma handleText_format_whole: "handleText_format v = detectFormatFromText v"
proof (cases "trim v = []")
  case True
  then show ?thesis by (simp add: handleText_format_def trim_strip_bom detectFormatFromText_def)
next
  case False
  then show ?thesis
    by (simp add: handleText_format_def trim_strip_bom detectFormatFromText_trim)
qed

text \<open>
  Claim C5 (as amended). A file is classified from its name and its first 512 bytes
  only: bytes after them never change the result, and with no known extension the result
  is GLB when the decoded header contains \<^verbatim>\<open>glTF\<close>, else the outcome of the ordered
  rules on the header. A pasted text is classified by the ordered rules on the whole
  text. The rules, on the trimmed text, first match wins: an opening brace and an
  \<^verbatim>\<open>"asset"\<close> key give glTF; \<^verbatim>\<open>solid\<close> at the start and \<^verbatim>\<open>facet normal\<close> somewhere give
  STL; \<^verbatim>\<open>ply\<close> at the start gives PLY; \<^verbatim>\<open>off\<close> or \<^verbatim>\<open>coff\<close> at the start gives OFF; a line
  that begins with an OBJ keyword gives OBJ; a SCAD keyword anywhere gives SCAD; else
  the format is unknown.
\<close>

theorem detection_rules:
  "(512 \<le> length buffer \<longrightarrow>
      handleFile_format decode name (buffer @ extra) = handleFile_format decode name buffer) \<and>
   (known_extension name = None \<longrightarrow>
      handleFile_format decode name buffer =
        (if includes_glTF (decode (take 512 buffer)) then Some Glb
         else detectFormatFromText (decode (take 512 buffer)))) \<and>
   handleText_format v = detectFormatFromText v \<and>
   (trim t = [] \<longrightarrow> detectFormatFromText t = None) \<and>
   (trim t \<noteq> [] \<longrightarrow>
      (looks_gltf (trim t) \<longrightarrow> detectFormatFromText t = Some Gltf) \<and>
      (\<not> looks_gltf (trim t) \<and> looks_stl (trim t) \<longrightarrow> detectFormatFromText t = Some Stl) \<and>
      (\<not> looks_gltf (trim t) \<and> \<not> looks_stl (trim t) \<and> looks_ply (trim t) \<longrightarrow>
         detectFormatFromText t = Some Ply) \<and>
      (\<not> looks_gltf (trim t) \<and> \<not> looks_stl (trim t) \<and> \<not> looks_ply (trim t) \<and> looks_off (trim t) \<longrightarrow>
         detectFormatFromText t = Some Off) \<and>
      (\<not> looks_gltf (trim t) \<and> \<not> looks_stl (trim t) \<and> \<not> looks_ply (trim t) \<and>
       \<not> looks_off (trim t) \<and> looks_obj (trim t) \<longrightarrow> detectFormatFromText t = Some Obj) \<and>
      (\<not> looks_gltf (trim t) \<and> \<not> looks_stl (trim t) \<and> \<not> looks_ply (trim t) \<and>
       \<not> looks_off (trim t) \<and> \<not> looks_obj (trim t) \<and> looks_scad (trim t) \<longrightarrow>
         detectFormatFromText t = Some Scad) \<and>
      (\<not> looks_gltf (trim t) \<and> \<not> looks_stl (trim t) \<and> \<not> looks_ply (trim t) \<and>
       \<not> looks_off (trim t) \<and> \<not> looks_obj (trim t) \<and> \<not> looks_scad (trim t) \<longrightarrow>
         detectFormatFromText t = None))"
proof -
  have 1: "512 \<le> length buffer \<longrightarrow>
      handleFile_format decode name (buffer @ extra) = handleFile_format decode name buffer"
    by (simp add: handleFile_format_def)
  have 2: "known_extension name = None \<longrightarrow>
      handleFile_format decode name buffer =
        (if includes_glTF (decode (take 512 buffer)) then Some Glb
         else detectFormatFromText (decode (take 512 buffer)))"
    by (simp add: handleFile_format_def detectFormatFromFile_def)
  have 4: "trim t = [] \<longrightarrow> detectFormatFromText t = None"
    by (simp add: detectFormatFromText_def)
  have 5: "trim t \<noteq> [] \<longrightarrow>
      (looks_gltf (trim t) \<longrightarrow> detectFormatFromText t = Some Gltf) \<and>
      (\<not> looks_gltf (trim t) \<and> looks_stl (trim t) \<longrightarrow> detectFormatFromText t = Some Stl) \<and>
      (\<not> looks_gltf (trim t) \<and> \<not> looks_stl (trim t) \<and> looks_ply (trim t) \<longrightarrow>
         detectFormatFromText t = Some Ply) \<and>
      (\<not> looks_gltf (trim t) \<and> \<not> looks_stl (trim t) \<and> \<not> looks_ply (trim t) \<and> looks_off (trim t) \<longrightarrow>
         detectFormatFromText t = Some Off) \<and>
      (\<not> looks_gltf (trim t) \<and> \<not> looks_stl (trim t) \<and> \<not> looks_ply (trim t) \<and>
       \<not> looks_off (trim t) \<and> looks_obj (trim t) \<longrightarrow> detectFormatFromText t = Some Obj) \<and>
      (\<not> looks_gltf (trim t) \<and> \<not> looks_stl (trim t) \<and> \<not> looks_ply (trim t) \<and>
       \<not> looks_off (trim t) \<and> \<not> looks_obj (trim t) \<and> looks_scad (trim t) \<longrightarrow>
         detectFormatFromText t = Some Scad) \<and>
      (\<not> looks_gltf (trim t) \<and> \<not> looks_stl (trim t) \<and> \<not> looks_ply (trim t) \<and>
       \<not> looks_off (trim t) \<and> \<not> looks_obj (trim t) \<and> \<not> looks_scad (trim t) \<longrightarrow>
         detectFormatFromText t = None)"
    by (simp add: detectFormatFromText_def)
  from 1 2 handleText_format_whole[of v] 4 5 show ?thesis by blast
qed

theorem detection_rules_witness:
  "(512::nat) \<le> length (replicate 512 (120::nat)) \<and>
   handleFile_format (\<lambda>b. b) (js ''model'') (replicate 512 120 @ js '' cube(1);'') =
     handleFile_format (\<lambda>b. b) (js ''model'') (replicate 512 120) \<and>
   known_extension (js ''model'') = None \<and>
   handleFile_format (\<lambda>b. b) (js ''model'') (js ''solid m'' @ LF # js ''facet normal 0 0 1'') = Some Stl \<and>
   handleText_format (js ''v 0 0 0'' @ LF # js ''f 1 1 1'') = Some Obj"
proof -
  note r = detection_rules [where decode = "\<lambda>b. b" and name = "js ''model''"]
  have l: "(512::nat) \<le> length (replicate 512 (120::nat))" by simp
  from r [where buffer = "replicate 512 120" and extra = "js '' cube(1);''"] l
  have 1: "handleFile_format (\<lambda>b. b) (js ''model'') (replicate 512 120 @ js '' cube(1);'') =
     handleFile_format (\<lambda>b. b) (js ''model'') (replicate 512 120)"
    by blast
  have k: "known_extension (js ''model'') = None"
    by (simp add: known_extension_def extension_def js_def lower_def)
  have g: "\<not> includes_glTF (js ''solid m'' @ LF # js ''facet normal 0 0 1'')"
    by (simp add: includes_glTF_def js_def LF_def)
  have d: "detectFormatFromText (js ''solid m'' @ LF # js ''facet normal 0 0 1'') = Some Stl"
    by (simp add: detect_eval LF_def)
  from r [where buffer = "js ''solid m'' @ LF # js ''facet normal 0 0 1''"] k
  have "handleFile_format (\<lambda>b. b) (js ''model'') (js ''solid m'' @ LF # js ''facet normal 0 0 1'') =
      (if includes_glTF (take 512 (js ''solid m'' @ LF # js ''facet normal 0 0 1'')) then Some Glb
       else detectFormatFromText (take 512 (js ''solid m'' @ LF # js ''facet normal 0 0 1'')))"
    by blast
  moreover have "take 512 (js ''solid m'' @ LF # js ''facet normal 0 0 1'') =
      js ''solid m'' @ LF # js ''facet normal 0 0 1''"
    by (simp add: js_def)
  ultimately have 2: "handleFile_format (\<lambda>b. b) (js ''model'')
      (js ''solid m'' @ LF # js ''facet normal 0 0 1'') = Some Stl"
    using g d by simp
  have "detectFormatFromText (js ''v 0 0 0'' @ LF # js ''f 1 1 1'') = Some Obj"
    by (simp add: detect_eval LF_def)
  with r [where v = "js ''v 0 0 0'' @ LF # js ''f 1 1 1''"]
  have 3: "handleText_format (js ''v 0 0 0'' @ LF # js ''f 1 1 1'') = Some Obj"
    by simp
  from l 1 k 2 3 show ?thesis by blast
qed

end
